theory Spec2Isabelle
  imports Complex_Main
begin

section \<open>Customizing saving and serialization: the hooks of the guide\<close>

text \<open>
  The guide \<^verbatim>\<open>guides/ipynb/customizing_saving_and_serialization.ipynb\<close> defines four
  classes and two functions on top of Keras. Each class overrides a pair of hooks that Keras
  calls from \<^verbatim>\<open>model.save\<close> and \<^verbatim>\<open>keras.models.load_model\<close>. The bodies of
  these hooks are embedded below, one HOL function per Python method. Python exceptions are
  values of type \<open>error\<close>; a method that mutates \<^verbatim>\<open>self\<close>, a dictionary or the
  file system takes the old state and returns the new one. When a method raises, the result is
  \<open>Inl\<close> of the error and the partially updated state is not returned.
\<close>

datatype error =
    FileNotFoundError
  | IsADirectoryError
  | TypeError
  | KeyError
  | AttributeError
  | ValueError
  | IndexError
  | InvalidArgumentError
  | AssertionError

subsection \<open>Python strings\<close>

text \<open>
  \<^verbatim>\<open>s.startswith(p)\<close>, \<^verbatim>\<open>old in s\<close> and \<^verbatim>\<open>s.replace(old, new)\<close>.
  \<^verbatim>\<open>replace\<close> scans from the left and replaces every non-overlapping occurrence; with an
  empty \<^verbatim>\<open>old\<close> it puts \<^verbatim>\<open>new\<close> before every character and at the end.
\<close>

definition startswith :: "string \<Rightarrow> string \<Rightarrow> bool" where
  "startswith s p = (take (length p) s = p)"

fun contains :: "string \<Rightarrow> string \<Rightarrow> bool" where
  "contains [] old = (old = [])"
| "contains (c # cs) old = (startswith (c # cs) old \<or> contains cs old)"

function replace_nonempty :: "string \<Rightarrow> string \<Rightarrow> string \<Rightarrow> string" where
  "replace_nonempty old new [] = []"
| "replace_nonempty old new (c # cs) =
     (if old \<noteq> [] \<and> startswith (c # cs) old
      then new @ replace_nonempty old new (drop (length old) (c # cs))
      else c # replace_nonempty old new cs)"
  by pat_completeness auto
termination
  by (relation "measure (\<lambda>(old, new, s). length s)") auto

definition str_replace :: "string \<Rightarrow> string \<Rightarrow> string \<Rightarrow> string" where
  "str_replace old new s =
     (if old = [] then new @ concat (map (\<lambda>c. c # new) s)
      else replace_nonempty old new s)"

subsection \<open>Paths, the file system and text-mode files\<close>

text \<open>
  \<^verbatim>\<open>os.path.join(a, b)\<close> of \<^verbatim>\<open>posixpath\<close> for two components, and
  \<^verbatim>\<open>os.path.dirname\<close>. A file system is the set of its directories and the contents
  of its regular files; a path is identified with its string. The empty directory name stands
  for the current directory.
\<close>

definition os_path_join :: "string \<Rightarrow> string \<Rightarrow> string" where
  "os_path_join a b =
     (if startswith b ''/'' then b
      else if a = [] \<or> last a = CHR ''/'' then a @ b
      else a @ ''/'' @ b)"

fun rstrip_slash :: "string \<Rightarrow> string" where
  "rstrip_slash s = rev (dropWhile (\<lambda>c. c = CHR ''/'') (rev s))"

definition os_path_dirname :: "string \<Rightarrow> string" where
  "os_path_dirname p =
     (let head = rev (dropWhile (\<lambda>c. c \<noteq> CHR ''/'') (rev p))
      in if head \<noteq> [] \<and> head \<noteq> replicate (length head) (CHR ''/'')
         then rstrip_slash head else head)"

record filesystem =
  dirs :: "string set"
  files :: "string \<rightharpoonup> string"

text \<open>
  Files opened without a \<^verbatim>\<open>newline\<close> argument are in text mode with universal
  newlines. On writing, every line feed becomes \<^verbatim>\<open>os.linesep\<close>, which is a line feed
  on POSIX. On reading, a carriage return followed by a line feed, and a carriage return
  alone, both become one line feed. Characters are those that the platform encoding writes
  and reads back unchanged.
\<close>

abbreviation LF :: char where "LF \<equiv> CHR 0x0A"
abbreviation CR :: char where "CR \<equiv> CHR 0x0D"

definition os_linesep :: string where
  "os_linesep = [LF]"

definition write_newlines :: "string \<Rightarrow> string" where
  "write_newlines s = concat (map (\<lambda>c. if c = LF then os_linesep else [c]) s)"

fun universal_newlines :: "string \<Rightarrow> string" where
  "universal_newlines [] = []"
| "universal_newlines [c] = [if c = CR then LF else c]"
| "universal_newlines (c # d # cs) =
     (if c = CR \<and> d = LF then LF # universal_newlines cs
      else if c = CR then LF # universal_newlines (d # cs)
      else c # universal_newlines (d # cs))"

definition dir_exists :: "filesystem \<Rightarrow> string \<Rightarrow> bool" where
  "dir_exists fs d = (d = [] \<or> d \<in> dirs fs)"

text \<open>
  \<^verbatim>\<open>with open(path, "w") as f: f.write(text)\<close> creates or truncates the file, and
  \<^verbatim>\<open>with open(path, "r") as f: f.read()\<close> returns its contents. Writing
  \<^verbatim>\<open>None\<close> raises after the file has been opened.
\<close>

definition open_write :: "filesystem \<Rightarrow> string \<Rightarrow> string option \<Rightarrow> error + filesystem" where
  "open_write fs path text =
     (if path \<in> dirs fs then Inl IsADirectoryError
      else if \<not> dir_exists fs (os_path_dirname path) then Inl FileNotFoundError
      else case text of
             None \<Rightarrow> Inl TypeError
           | Some s \<Rightarrow> Inr (fs\<lparr>files := (files fs)(path \<mapsto> write_newlines s)\<rparr>))"

definition open_read :: "filesystem \<Rightarrow> string \<Rightarrow> error + string" where
  "open_read fs path =
     (if path \<in> dirs fs then Inl IsADirectoryError
      else case files fs path of
             None \<Rightarrow> Inl FileNotFoundError
           | Some s \<Rightarrow> Inr (universal_newlines s))"

subsection \<open>LayerWithCustomAssets\<close>

text \<open>
  The layer keeps its sentence in \<^verbatim>\<open>self.vocab\<close>, which \<^verbatim>\<open>__init__\<close> sets to its
  argument, \<^verbatim>\<open>None\<close> by default. The state of the \<^verbatim>\<open>Dense\<close> base class is not
  touched by the two hooks.
\<close>

record LayerWithCustomAssets =
  vocab :: "string option"

definition LayerWithCustomAssets_init :: "string option \<Rightarrow> LayerWithCustomAssets" where
  "LayerWithCustomAssets_init v = \<lparr>vocab = v\<rparr>"

definition save_assets :: "LayerWithCustomAssets \<Rightarrow> string \<Rightarrow> filesystem \<Rightarrow> error + filesystem" where
  "save_assets self inner_path fs =
     open_write fs (os_path_join inner_path ''vocabulary.txt'') (vocab self)"

definition load_assets ::
  "LayerWithCustomAssets \<Rightarrow> string \<Rightarrow> filesystem \<Rightarrow> error + LayerWithCustomAssets" where
  "load_assets self inner_path fs =
     (case open_read fs (os_path_join inner_path ''vocabulary.txt'') of
        Inl e \<Rightarrow> Inl e
      | Inr text \<Rightarrow> Inr (self\<lparr>vocab := Some (str_replace ''<unk>'' ''little'' text)\<rparr>))"

subsection \<open>Formatted integers\<close>

text \<open>
  \<^verbatim>\<open>f"{i}"\<close> for an index \<open>i\<close> of \<^verbatim>\<open>enumerate\<close> is the decimal numeral of
  \<open>i\<close>, and \<^verbatim>\<open>int(s)\<close> reads a decimal numeral back.
\<close>

definition digit_char :: "nat \<Rightarrow> char" where
  "digit_char d = ''0123456789'' ! d"

function str_nat :: "nat \<Rightarrow> string" where
  "str_nat n = (if n < 10 then [digit_char n] else str_nat (n div 10) @ [digit_char (n mod 10)])"
  by pat_completeness auto
termination
  by (relation "measure id") auto

declare str_nat.simps [simp del]

definition digit_val :: "char \<Rightarrow> nat" where
  "digit_val c = of_char c - 48"

definition int_of_str :: "string \<Rightarrow> nat" where
  "int_of_str s = foldl (\<lambda>a c. 10 * a + digit_val c) 0 s"

subsection \<open>Variables, arrays and the store\<close>

text \<open>
  An array has a shape and its elements in row-major order. A \<^verbatim>\<open>tf.Variable\<close> is an
  object with identity, so two attributes may name the same variable: a variable is an
  address, and the state of all variables maps each address to the array it holds.
  \<^verbatim>\<open>v.numpy()\<close> reads that array and \<^verbatim>\<open>v.assign(x)\<close> replaces it, raising when
  the shape of \<^verbatim>\<open>x\<close> is not the shape of the variable. The store that Keras hands to
  the hooks is a dictionary from strings to arrays.
\<close>

record 'a ndarray =
  shape :: "nat list"
  elems :: "'a list"

type_synonym variable = nat
type_synonym 'a variables = "variable \<Rightarrow> 'a ndarray"
type_synonym 'a store = "string \<rightharpoonup> 'a ndarray"

definition assign :: "'a variables \<Rightarrow> variable \<Rightarrow> 'a ndarray \<Rightarrow> error + 'a variables" where
  "assign h v x = (if shape x = shape (h v) then Inr (h(v := x)) else Inl ValueError)"

subsection \<open>LayerWithCustomVariables\<close>

text \<open>
  The layer is a \<^verbatim>\<open>Dense\<close> layer with one more variable, \<^verbatim>\<open>stored_variables\<close>.
  Its state is the list of its trainable and of its non-trainable weights and that variable.
  The property \<^verbatim>\<open>self.weights\<close> is the trainable weights followed by the non-trainable
  ones, the list that the default \<^verbatim>\<open>save_own_variables\<close> quoted in the guide
  enumerates:
  \<^verbatim>\<open>all_vars = self._trainable_weights + self._non_trainable_weights\<close>,
  \<^verbatim>\<open>for i, v in enumerate(all_vars): store[f"{i}"] = v.numpy()\<close>.
\<close>

record LayerWithCustomVariables =
  trainable_weights :: "variable list"
  non_trainable_weights :: "variable list"
  stored_variables :: variable

definition weights :: "LayerWithCustomVariables \<Rightarrow> variable list" where
  "weights self = trainable_weights self @ non_trainable_weights self"

text \<open>
  The variables that the two hooks read and assign, in the order in which
  \<^verbatim>\<open>load_own_variables\<close> assigns them: \<^verbatim>\<open>stored_variables\<close>, then the weights. When
  Keras tracks \<^verbatim>\<open>stored_variables\<close> as a weight of the layer, it occurs twice.
\<close>

definition layer_variables :: "LayerWithCustomVariables \<Rightarrow> variable list" where
  "layer_variables self = stored_variables self # weights self"

fun save_enumerate :: "'a variables \<Rightarrow> nat \<Rightarrow> variable list \<Rightarrow> 'a store \<Rightarrow> 'a store" where
  "save_enumerate h i [] store = store"
| "save_enumerate h i (v # vs) store = save_enumerate h (Suc i) vs (store(str_nat i \<mapsto> h v))"

definition Layer_save_own_variables ::
  "'a variables \<Rightarrow> LayerWithCustomVariables \<Rightarrow> 'a store \<Rightarrow> 'a store" where
  "Layer_save_own_variables h self store =
     save_enumerate h 0 (trainable_weights self @ non_trainable_weights self) store"

definition save_own_variables ::
  "'a variables \<Rightarrow> LayerWithCustomVariables \<Rightarrow> 'a store \<Rightarrow> 'a store" where
  "save_own_variables h self store =
     (Layer_save_own_variables h self store)(''variables'' \<mapsto> h (stored_variables self))"

fun load_enumerate ::
  "'a variables \<Rightarrow> nat \<Rightarrow> variable list \<Rightarrow> 'a store \<Rightarrow> error + 'a variables" where
  "load_enumerate h i [] store = Inr h"
| "load_enumerate h i (v # vs) store =
     (case store (str_nat i) of
        None \<Rightarrow> Inl KeyError
      | Some x \<Rightarrow> (case assign h v x of
                    Inl e \<Rightarrow> Inl e
                  | Inr h' \<Rightarrow> load_enumerate h' (Suc i) vs store))"

definition load_own_variables ::
  "'a variables \<Rightarrow> LayerWithCustomVariables \<Rightarrow> 'a store \<Rightarrow> error + 'a variables" where
  "load_own_variables h self store =
     (case store ''variables'' of
        None \<Rightarrow> Inl KeyError
      | Some x \<Rightarrow> (case assign h (stored_variables self) x of
                    Inl e \<Rightarrow> Inl e
                  | Inr h' \<Rightarrow> load_enumerate h' 0 (weights self) store))"

subsection \<open>Tensor operations\<close>

text \<open>
  Tensors are arrays of reals: the arithmetic below is exact. A binary element-wise operation
  broadcasts its operands as NumPy and TensorFlow do: the shapes are aligned at their last
  axis, an axis of length one is stretched, and shapes that do not fit raise. The two
  functions below work on reversed shapes; \<open>source_index\<close> maps a row-major position of
  the result to the position of the operand element that it reads.
\<close>

fun broadcast_rev :: "nat list \<Rightarrow> nat list \<Rightarrow> nat list option" where
  "broadcast_rev [] ys = Some ys"
| "broadcast_rev (x # xs) [] = Some (x # xs)"
| "broadcast_rev (x # xs) (y # ys) =
     (if x = y \<or> y = 1 then map_option ((#) x) (broadcast_rev xs ys)
      else if x = 1 then map_option ((#) y) (broadcast_rev xs ys)
      else None)"

definition broadcast_shapes :: "nat list \<Rightarrow> nat list \<Rightarrow> nat list option" where
  "broadcast_shapes s t = map_option rev (broadcast_rev (rev s) (rev t))"

fun source_index :: "nat list \<Rightarrow> nat list \<Rightarrow> nat \<Rightarrow> nat" where
  "source_index (d # ds) (e # es) k = (k mod e) mod d + d * source_index ds es (k div e)"
| "source_index _ _ k = 0"

definition broadcast_op ::
  "(real \<Rightarrow> real \<Rightarrow> real) \<Rightarrow> real ndarray \<Rightarrow> real ndarray \<Rightarrow> error + real ndarray" where
  "broadcast_op f a b =
     (case broadcast_shapes (shape a) (shape b) of
        None \<Rightarrow> Inl InvalidArgumentError
      | Some out \<Rightarrow>
          Inr \<lparr>shape = out,
               elems = map (\<lambda>k. f (elems a ! source_index (rev (shape a)) (rev out) k)
                                  (elems b ! source_index (rev (shape b)) (rev out) k))
                         [0..<prod_list out]\<rparr>)"

text \<open>
  \<^verbatim>\<open>tf.math.squared_difference(x, y)\<close> is \<^verbatim>\<open>(x - y) * (x - y)\<close> element-wise,
  \<^verbatim>\<open>loss / 10.0\<close> divides every element, and \<^verbatim>\<open>tf.reduce_sum(loss, axis=1)\<close> adds
  along the second axis and removes it; a tensor of rank below two has no such axis.
  For a tensor of shape \<open>d0 # d1 # rest\<close> and \<open>r = prod_list rest\<close>, position \<open>k\<close> of
  the result reads the positions \<open>axis1_index d1 r k j\<close> for \<open>j < d1\<close>.
\<close>

definition squared_difference :: "real ndarray \<Rightarrow> real ndarray \<Rightarrow> error + real ndarray" where
  "squared_difference x y = broadcast_op (\<lambda>u v. (u - v) * (u - v)) x y"

definition divide_scalar :: "real ndarray \<Rightarrow> real \<Rightarrow> real ndarray" where
  "divide_scalar t c = t\<lparr>elems := map (\<lambda>u. u / c) (elems t)\<rparr>"

definition axis1_index :: "nat \<Rightarrow> nat \<Rightarrow> nat \<Rightarrow> nat \<Rightarrow> nat" where
  "axis1_index d1 r k j = ((k div r) * d1 + j) * r + k mod r"

definition reduce_sum_axis1 :: "real ndarray \<Rightarrow> error + real ndarray" where
  "reduce_sum_axis1 t =
     (case shape t of
        d0 # d1 # rest \<Rightarrow>
          Inr \<lparr>shape = d0 # rest,
               elems = map (\<lambda>k. sum_list (map (\<lambda>j. elems t ! axis1_index d1 (prod_list rest) k j)
                                               [0..<d1]))
                         [0..<d0 * prod_list rest]\<rparr>
      | _ \<Rightarrow> Inl InvalidArgumentError)"

subsection \<open>The loss and the metric of the compile example\<close>

definition small_square_sum_loss :: "real ndarray \<Rightarrow> real ndarray \<Rightarrow> error + real ndarray" where
  "small_square_sum_loss y_true y_pred =
     (case squared_difference y_pred y_true of
        Inl e \<Rightarrow> Inl e
      | Inr loss \<Rightarrow> reduce_sum_axis1 (divide_scalar loss 10))"


text \<open>
  An array is well shaped when it has as many elements as its shape says.
  \<open>axis1_elem d1 r t i j q\<close> is the element of \<open>t\<close> at index \<open>i\<close> of the first axis,
  \<open>j\<close> of the second and row-major position \<open>q\<close> in the remaining axes, whose sizes
  multiply to \<open>r\<close>.
\<close>

definition well_shaped :: "'a ndarray \<Rightarrow> bool" where
  "well_shaped t = (length (elems t) = prod_list (shape t))"


definition axis1_elem :: "nat \<Rightarrow> nat \<Rightarrow> real ndarray \<Rightarrow> nat \<Rightarrow> nat \<Rightarrow> nat \<Rightarrow> real" where
  "axis1_elem d1 r t i j q = elems t ! ((i * d1 + j) * r + q)"

subsection \<open>LayerWithCustomBuild\<close>

text \<open>
  The layer has its number of units and, once built, the flag and the input shape that
  \<^verbatim>\<open>Layer.build\<close> records, the two weights \<^verbatim>\<open>self.w\<close> and \<^verbatim>\<open>self.b\<close>, and
  \<^verbatim>\<open>self.layer_init\<close>. Before \<^verbatim>\<open>build\<close> the last three attributes do not exist.
  The fields \<open>self_w\<close> and \<open>self_b\<close> are these two weights.
  A weight is described by its shape, its initializer and whether it is trainable; its
  random initial value is not part of the model. Shapes are fully defined.
  \<^verbatim>\<open>add_weight\<close> raises for an initializer identifier that Keras does not know; which
  identifiers it knows is the parameter \<open>known\<close>.
\<close>

record weight =
  weight_shape :: "nat list"
  initializer :: string
  trainable :: bool

datatype config_value = Shape "nat list" | Identifier string

type_synonym build_config = "string \<rightharpoonup> config_value"

record LayerWithCustomBuild =
  units :: nat
  built :: bool
  build_input_shape :: "nat list option"
  self_w :: "weight option"
  self_b :: "weight option"
  layer_init :: "string option"

definition LayerWithCustomBuild_init :: "nat \<Rightarrow> LayerWithCustomBuild" where
  "LayerWithCustomBuild_init n =
     \<lparr>units = n, built = False, build_input_shape = None, self_w = None, self_b = None,
      layer_init = None\<rparr>"

definition Layer_build :: "LayerWithCustomBuild \<Rightarrow> nat list \<Rightarrow> LayerWithCustomBuild" where
  "Layer_build self input_shape = self\<lparr>build_input_shape := Some input_shape, built := True\<rparr>"

definition add_weight :: "(string \<Rightarrow> bool) \<Rightarrow> nat list \<Rightarrow> string \<Rightarrow> bool \<Rightarrow> error + weight" where
  "add_weight known sh init tr =
     (if known init then Inr \<lparr>weight_shape = sh, initializer = init, trainable = tr\<rparr>
      else Inl ValueError)"

definition build ::
  "(string \<Rightarrow> bool) \<Rightarrow> LayerWithCustomBuild \<Rightarrow> nat list \<Rightarrow> string \<Rightarrow> error + LayerWithCustomBuild" where
  "build known self input_shape init =
     (let self1 = Layer_build self input_shape in
      if input_shape = [] then Inl IndexError
      else case add_weight known [last input_shape, units self1] init True of
             Inl e \<Rightarrow> Inl e
           | Inr kernel_weight \<Rightarrow>
               (case add_weight known [units self1] init True of
                  Inl e \<Rightarrow> Inl e
                | Inr bias_weight \<Rightarrow>
                    Inr (self1\<lparr>self_w := Some kernel_weight, self_b := Some bias_weight,
                               layer_init := Some init\<rparr>)))"

text \<open>
  The inherited \<^verbatim>\<open>get_build_config\<close> "only gives \<^verbatim>\<open>input_shape\<close>", the shape the
  layer was built with; for a layer that was never built it returns \<^verbatim>\<open>None\<close>, which
  has no \<^verbatim>\<open>update\<close>. A configuration value is a shape or an initializer identifier;
  a value of the wrong kind makes \<^verbatim>\<open>build\<close> raise.
\<close>

definition Layer_get_build_config :: "LayerWithCustomBuild \<Rightarrow> build_config option" where
  "Layer_get_build_config self =
     (case build_input_shape self of
        None \<Rightarrow> None
      | Some s \<Rightarrow> Some [''input_shape'' \<mapsto> Shape s])"

definition get_build_config :: "LayerWithCustomBuild \<Rightarrow> error + build_config" where
  "get_build_config self =
     (case Layer_get_build_config self of
        None \<Rightarrow> Inl AttributeError
      | Some build_config \<Rightarrow>
          (case layer_init self of
             None \<Rightarrow> Inl AttributeError
           | Some init \<Rightarrow> Inr (build_config(''layer_init'' \<mapsto> Identifier init))))"

definition build_from_config ::
  "(string \<Rightarrow> bool) \<Rightarrow> LayerWithCustomBuild \<Rightarrow> build_config \<Rightarrow> error + LayerWithCustomBuild" where
  "build_from_config known self config =
     (case config ''input_shape'' of
        None \<Rightarrow> Inl KeyError
      | Some x \<Rightarrow>
          (case config ''layer_init'' of
             None \<Rightarrow> Inl KeyError
           | Some y \<Rightarrow>
               (case (x, y) of
                  (Shape s, Identifier init) \<Rightarrow> build known self s init
                | _ \<Rightarrow> Inl TypeError)))"

subsection \<open>ModelWithCustomCompile\<close>

text \<open>
  Optimizers, losses and metrics are Python objects of a type \<open>'v\<close>. The model keeps what
  \<^verbatim>\<open>Model.compile\<close> recorded and the three attributes that the overridden
  \<^verbatim>\<open>compile\<close> sets afterwards; they do not exist before the first call. Whether
  \<^verbatim>\<open>Model.compile\<close> accepts its arguments, and
  \<^verbatim>\<open>keras.utils.deserialize_keras_object\<close>, are parameters.
\<close>

record 'v ModelWithCustomCompile =
  compiled :: "('v \<times> 'v \<times> 'v) option"
  model_optimizer :: "'v option"
  loss_fn :: "'v option"
  loss_metrics :: "'v option"

definition ModelWithCustomCompile_init :: "'v ModelWithCustomCompile" where
  "ModelWithCustomCompile_init =
     \<lparr>compiled = None, model_optimizer = None, loss_fn = None, loss_metrics = None\<rparr>"

definition Model_compile ::
  "('v \<Rightarrow> 'v \<Rightarrow> 'v \<Rightarrow> bool) \<Rightarrow> 'v ModelWithCustomCompile \<Rightarrow> 'v \<Rightarrow> 'v \<Rightarrow> 'v
     \<Rightarrow> error + 'v ModelWithCustomCompile" where
  "Model_compile accepts self optimizer loss metrics =
     (if accepts optimizer loss metrics
      then Inr (self\<lparr>compiled := Some (optimizer, loss, metrics)\<rparr>)
      else Inl ValueError)"

definition compile ::
  "('v \<Rightarrow> 'v \<Rightarrow> 'v \<Rightarrow> bool) \<Rightarrow> 'v ModelWithCustomCompile \<Rightarrow> 'v \<Rightarrow> 'v \<Rightarrow> 'v
     \<Rightarrow> error + 'v ModelWithCustomCompile" where
  "compile accepts self optimizer loss_fn' metrics =
     (case Model_compile accepts self optimizer loss_fn' metrics of
        Inl e \<Rightarrow> Inl e
      | Inr self1 \<Rightarrow>
          Inr (self1\<lparr>model_optimizer := Some optimizer, loss_fn := Some loss_fn',
                     loss_metrics := Some metrics\<rparr>))"

definition get_compile_config :: "'v ModelWithCustomCompile \<Rightarrow> error + (string \<rightharpoonup> 'v)" where
  "get_compile_config self =
     (case model_optimizer self of
        None \<Rightarrow> Inl AttributeError
      | Some optimizer \<Rightarrow>
          (case loss_fn self of
             None \<Rightarrow> Inl AttributeError
           | Some loss \<Rightarrow>
               (case loss_metrics self of
                  None \<Rightarrow> Inl AttributeError
                | Some metrics \<Rightarrow>
                    Inr [''model_optimizer'' \<mapsto> optimizer, ''loss_fn'' \<mapsto> loss,
                         ''metric'' \<mapsto> metrics])))"

definition deserialize_entry ::
  "('v \<Rightarrow> error + 'v) \<Rightarrow> (string \<rightharpoonup> 'v) \<Rightarrow> string \<Rightarrow> error + 'v" where
  "deserialize_entry deserialize_keras_object config key =
     (case config key of
        None \<Rightarrow> Inl KeyError
      | Some x \<Rightarrow> deserialize_keras_object x)"

definition compile_from_config ::
  "('v \<Rightarrow> error + 'v) \<Rightarrow> ('v \<Rightarrow> 'v \<Rightarrow> 'v \<Rightarrow> bool) \<Rightarrow> 'v ModelWithCustomCompile
     \<Rightarrow> (string \<rightharpoonup> 'v) \<Rightarrow> error + 'v ModelWithCustomCompile" where
  "compile_from_config deserialize_keras_object accepts self config =
     (case deserialize_entry deserialize_keras_object config ''model_optimizer'' of
        Inl e \<Rightarrow> Inl e
      | Inr optimizer \<Rightarrow>
          (case deserialize_entry deserialize_keras_object config ''loss_fn'' of
             Inl e \<Rightarrow> Inl e
           | Inr loss \<Rightarrow>
               (case deserialize_entry deserialize_keras_object config ''metric'' of
                  Inl e \<Rightarrow> Inl e
                | Inr metrics \<Rightarrow> compile accepts self optimizer loss metrics)))"

section \<open>The example scripts\<close>

text \<open>
  Each example builds a model, saves it, restores it and asserts something about the restored
  model. The archive and the order in which the hooks run belong to Keras; the guide states
  that \<^verbatim>\<open>model.save\<close> runs the save hooks and \<^verbatim>\<open>keras.models.load_model\<close> runs
  \<^verbatim>\<open>build_from_config\<close>, \<^verbatim>\<open>compile_from_config\<close>, \<^verbatim>\<open>load_own_variables\<close> and
  \<^verbatim>\<open>load_assets\<close> on the objects it constructs. The scripts below are the examples at
  the level of these hooks: the save hook of the original object, then the load hook of a
  newly constructed one, then the assert. What Keras supplies is a parameter: the state of
  the variables and the restored layer's new variables, the inner directory and the file
  system, the initializers Keras knows, what \<^verbatim>\<open>Model.compile\<close> accepts, and the
  serialization of the compile configuration at saving time with its inverse
  \<^verbatim>\<open>deserialize_keras_object\<close>.
\<close>

subsection \<open>The asserts of \<^verbatim>\<open>numpy.testing\<close>\<close>






subsection \<open>Custom variables\<close>


subsection \<open>Custom assets\<close>

text \<open>
  The restored layer is constructed without a vocab, which \<^verbatim>\<open>get_config\<close> of
  \<^verbatim>\<open>Dense\<close> does not record, and gets it from \<^verbatim>\<open>load_assets\<close>. The assert is
  \<^verbatim>\<open>assert_string_equal(restored_model.layers[0].vocab, "Mary had a little lamb.")\<close>.
\<close>

definition custom_assets_model :: LayerWithCustomAssets where
  "custom_assets_model = LayerWithCustomAssets_init (Some ''Mary had a <unk> lamb.'')"



subsection \<open>Custom build\<close>




subsection \<open>Custom compile\<close>

text \<open>
  The optimizer is the string \<^verbatim>\<open>"SGD"\<close>, the loss the function
  \<^verbatim>\<open>small_square_sum_loss\<close> and the metrics the list of the string \<^verbatim>\<open>"accuracy"\<close>
  and the function \<^verbatim>\<open>mean_pred\<close>. The three asserts compare \<^verbatim>\<open>model_optimizer\<close>,
  \<^verbatim>\<open>loss_fn\<close> and \<^verbatim>\<open>loss_metrics\<close> of the model with those of the restored model.
\<close>

datatype pyobj = Str string | Function string | PyList "pyobj list"

definition custom_compile_model ::
  "(pyobj \<Rightarrow> pyobj \<Rightarrow> pyobj \<Rightarrow> bool) \<Rightarrow> error + pyobj ModelWithCustomCompile" where
  "custom_compile_model accepts =
     compile accepts ModelWithCustomCompile_init (Str ''SGD'') (Function ''small_square_sum_loss'')
       (PyList [Str ''accuracy'', Function ''mean_pred''])"



subsection \<open>Archive files\<close>

text \<open>
  The calls \<^verbatim>\<open>model.save(path)\<close> and \<^verbatim>\<open>keras.models.load_model(path)\<close> of the four
  examples, in the order of the notebook.
\<close>

datatype file_op = Save string | Load string

definition notebook_archive_ops :: "file_op list" where
  "notebook_archive_ops =
     [Save ''custom_vars_model.keras'', Load ''custom_vars_model.keras'',
      Save ''custom_assets_model.keras'', Load ''custom_assets_model.keras'',
      Save ''custom_build_model.keras'', Load ''custom_build_model.keras'',
      Save ''custom_compile_model.keras'', Load ''custom_compile_model.keras'']"

fun saved_paths :: "file_op list \<Rightarrow> string list" where
  "saved_paths [] = []"
| "saved_paths (Save p # ops) = p # saved_paths ops"
| "saved_paths (Load p # ops) = saved_paths ops"

fun loads_follow_saves :: "file_op list \<Rightarrow> bool" where
  "loads_follow_saves (Save p # Load q # ops) = (p = q \<and> loads_follow_saves ops)"
| "loads_follow_saves [] = True"
| "loads_follow_saves _ = False"

subsection \<open>Classes and hooks\<close>

text \<open>
  The methods that each class of the notebook defines, in the order of their definition, and
  the four pairs of hooks that the guide lists under its APIs.
\<close>

definition class_methods :: "(string \<times> string list) list" where
  "class_methods =
     [(''LayerWithCustomVariables'',
         [''__init__'', ''save_own_variables'', ''load_own_variables'', ''call'']),
      (''LayerWithCustomAssets'', [''__init__'', ''save_assets'', ''load_assets'']),
      (''LayerWithCustomBuild'',
         [''__init__'', ''call'', ''get_config'', ''build'', ''get_build_config'',
          ''build_from_config'']),
      (''ModelWithCustomCompile'',
         [''__init__'', ''call'', ''compile'', ''get_compile_config'', ''compile_from_config''])]"

definition hook_pairs :: "(string \<times> string) list" where
  "hook_pairs =
     [(''save_own_variables'', ''load_own_variables''),
      (''save_assets'', ''load_assets''),
      (''get_build_config'', ''build_from_config''),
      (''get_compile_config'', ''compile_from_config'')]"

text \<open>
  The hooks of Keras saving are named in pairs: \<^verbatim>\<open>save_X\<close> with \<^verbatim>\<open>load_X\<close>, and
  \<^verbatim>\<open>get_X_config\<close> with \<^verbatim>\<open>X_from_config\<close> (\<^verbatim>\<open>get_config\<close> with
  \<^verbatim>\<open>from_config\<close>). \<open>load_partner\<close> gives the loading name that belongs to a saving
  name, and \<open>is_load\<close> recognises a loading name. From the methods of the classes alone,
  \<open>overridden_pairs\<close> collects every saving method whose partner the same class defines,
  \<open>unpaired_saves\<close> every saving method whose partner it does not define,
  \<open>unpaired_loads\<close> every loading method without its saving method, and
  \<open>other_methods\<close> the methods that are neither.
\<close>

definition endswith :: "string \<Rightarrow> string \<Rightarrow> bool" where
  "endswith s x = (length x \<le> length s \<and> drop (length s - length x) s = x)"

definition load_partner :: "string \<Rightarrow> string option" where
  "load_partner m =
     (if startswith m ''save_'' then Some (''load_'' @ drop 5 m)
      else if startswith m ''get_'' \<and> endswith m ''config''
      then Some (take (length m - 10) (drop 4 m) @ ''from_config'')
      else None)"

definition is_load :: "string \<Rightarrow> bool" where
  "is_load m = (startswith m ''load_'' \<or> endswith m ''from_config'')"

definition pairs_of_class :: "string \<times> string list \<Rightarrow> (string \<times> string \<times> string) list" where
  "pairs_of_class cm =
     concat (map (\<lambda>s. case load_partner s of
                         None \<Rightarrow> []
                       | Some l \<Rightarrow> if l \<in> set (snd cm) then [(fst cm, s, l)] else [])
                 (snd cm))"

definition overridden_pairs :: "(string \<times> string \<times> string) list" where
  "overridden_pairs = concat (map pairs_of_class class_methods)"

definition unpaired_saves :: "(string \<times> string \<times> string) list" where
  "unpaired_saves =
     concat (map (\<lambda>cm. concat (map (\<lambda>s. case load_partner s of
                                             None \<Rightarrow> []
                                           | Some l \<Rightarrow> if l \<in> set (snd cm) then []
                                                       else [(fst cm, s, l)])
                                     (snd cm)))
                 class_methods)"

definition unpaired_loads :: "(string \<times> string) list" where
  "unpaired_loads =
     concat (map (\<lambda>cm. map (\<lambda>l. (fst cm, l))
                             (filter (\<lambda>l. is_load l
                                        \<and> \<not> list_ex (\<lambda>s. load_partner s = Some l) (snd cm))
                                     (snd cm)))
                 class_methods)"

definition other_methods :: "string list" where
  "other_methods =
     filter (\<lambda>m. load_partner m = None \<and> \<not> is_load m) (concat (map snd class_methods))"


section \<open>Properties\<close>

subsection \<open>Strings and text files\<close>

lemma write_newlines_id: "write_newlines s = s"
  by (induction s) (simp_all add: write_newlines_def os_linesep_def)

lemma universal_newlines_id: "CR \<notin> set s \<Longrightarrow> universal_newlines s = s"
  by (induction s rule: universal_newlines.induct) auto

lemma startswith_iff: "startswith s p \<longleftrightarrow> (\<exists>b. s = p @ b)"
proof
  assume "startswith s p"
  then have "s = p @ drop (length p) s"
    unfolding startswith_def by (metis append_take_drop_id)
  then show "\<exists>b. s = p @ b" ..
next
  assume "\<exists>b. s = p @ b"
  then show "startswith s p" by (auto simp: startswith_def)
qed

lemma startswith_length: "startswith s p \<Longrightarrow> length p \<le> length s"
proof -
  assume "startswith s p"
  then have "length (take (length p) s) = length p" by (simp add: startswith_def)
  then show ?thesis by simp
qed

text \<open>\<open>contains s old\<close> is Python's \<^verbatim>\<open>old in s\<close>: \<open>old\<close> occurs somewhere in \<open>s\<close>.\<close>

lemma contains_iff: "contains s old \<longleftrightarrow> (\<exists>a b. s = a @ old @ b)"
proof (induction s)
  case Nil
  then show ?case by auto
next
  case (Cons c cs)
  show ?case
  proof
    assume "contains (c # cs) old"
    then consider "startswith (c # cs) old" | "contains cs old" by auto
    then show "\<exists>a b. c # cs = a @ old @ b"
    proof cases
      case 1
      then obtain b where "c # cs = old @ b" by (auto simp: startswith_iff)
      then have "c # cs = [] @ old @ b" by simp
      then show ?thesis by blast
    next
      case 2
      then obtain a b where "cs = a @ old @ b" using Cons.IH by blast
      then have "c # cs = (c # a) @ old @ b" by simp
      then show ?thesis by blast
    qed
  next
    assume "\<exists>a b. c # cs = a @ old @ b"
    then obtain a b where ab: "c # cs = a @ old @ b" by blast
    show "contains (c # cs) old"
    proof (cases a)
      case Nil
      then have "startswith (c # cs) old" using ab by (simp add: startswith_iff)
      then show ?thesis by simp
    next
      case (Cons x xs)
      then have "cs = xs @ old @ b" using ab by simp
      then show ?thesis using Cons.IH by auto
    qed
  qed
qed

lemma replace_nonempty_absent:
  "\<not> contains s old \<Longrightarrow> replace_nonempty old new s = s"
  by (induction old new s rule: replace_nonempty.induct) auto

lemma replace_nonempty_length_ge:
  "length old \<le> length new \<Longrightarrow> length s \<le> length (replace_nonempty old new s)"
proof (induction old new s rule: replace_nonempty.induct)
  case (1 old new)
  then show ?case by simp
next
  case (2 old new c cs)
  then show ?case by (auto simp: startswith_def)
qed

lemma replace_nonempty_length_gt:
  "old \<noteq> [] \<Longrightarrow> length old < length new \<Longrightarrow> contains s old \<Longrightarrow>
   length s < length (replace_nonempty old new s)"
proof (induction old new s rule: replace_nonempty.induct)
  case (1 old new)
  then show ?case by simp
next
  case (2 old new c cs)
  show ?case
  proof (cases "startswith (c # cs) old")
    case True
    let ?rest = "drop (length old) (c # cs)"
    have le: "length old \<le> length new" using "2.prems"(2) by simp
    have a: "length ?rest \<le> length (replace_nonempty old new ?rest)"
      by (rule replace_nonempty_length_ge [OF le])
    have b: "length old \<le> length (c # cs)"
      by (rule startswith_length [OF True])
    have c: "length ?rest = length (c # cs) - length old"
      by (rule length_drop)
    have d: "replace_nonempty old new (c # cs) = new @ replace_nonempty old new ?rest"
      using True "2.prems"(1) by (simp only: replace_nonempty.simps if_True simp_thms)
    have "length (c # cs) < length new + length (replace_nonempty old new ?rest)"
      using a b c "2.prems"(2) by linarith
    then show ?thesis by (simp only: d length_append)
  next
    case False
    then have e: "replace_nonempty old new (c # cs) = c # replace_nonempty old new cs"
      by (simp only: replace_nonempty.simps simp_thms if_False)
    have "contains cs old" using False "2.prems"(3) by (simp only: contains.simps simp_thms)
    then have "length cs < length (replace_nonempty old new cs)"
      using "2.IH"(2) False "2.prems"(1,2) by blast
    then show ?thesis by (simp only: e) simp
  qed
qed

lemma str_replace_unk_fixed:
  "str_replace ''<unk>'' ''little'' v = v \<longleftrightarrow> \<not> contains v ''<unk>''"
proof
  assume eq: "str_replace ''<unk>'' ''little'' v = v"
  show "\<not> contains v ''<unk>''"
  proof
    assume "contains v ''<unk>''"
    then have "length v < length (replace_nonempty ''<unk>'' ''little'' v)"
      by (intro replace_nonempty_length_gt) simp_all
    then show False using eq by (simp add: str_replace_def)
  qed
next
  assume "\<not> contains v ''<unk>''"
  then show "str_replace ''<unk>'' ''little'' v = v"
    by (simp add: str_replace_def replace_nonempty_absent)
qed

text \<open>
  After the replacement of \<^verbatim>\<open><unk>\<close> by \<^verbatim>\<open>little\<close> no occurrence of \<^verbatim>\<open><unk>\<close> is
  left: the replacement cannot complete a new one.
\<close>

lemma contains_append_no_start:
  assumes "old \<noteq> []" and "hd old \<notin> set a"
  shows "contains (a @ s) old = contains s old"
  using assms
proof (induction a)
  case Nil
  then show ?case by simp
next
  case (Cons c a)
  have "\<not> startswith (c # a @ s) old"
  proof
    assume "startswith (c # a @ s) old"
    then obtain t where "c # a @ s = old @ t" by (auto simp: startswith_iff)
    then have "hd old = c" using Cons.prems(1) by (cases old) auto
    then show False using Cons.prems(2) by simp
  qed
  then show ?case using Cons by simp
qed

lemma replace_nonempty_prefix:
  assumes "new \<noteq> []" and "hd new \<notin> set p" and "startswith (replace_nonempty old new s) p"
  shows "startswith s p"
  using assms
proof (induction p arbitrary: s)
  case Nil
  then show ?case by (simp add: startswith_def)
next
  case (Cons x p)
  show ?case
  proof (cases s)
    case Nil
    then show ?thesis using Cons.prems(3) by (simp add: startswith_def)
  next
    case (Cons d ds)
    show ?thesis
    proof (cases "old \<noteq> [] \<and> startswith (d # ds) old")
      case True
      then have "replace_nonempty old new s
          = new @ replace_nonempty old new (drop (length old) (d # ds))"
        using Cons by simp
      then have "hd (replace_nonempty old new s) = hd new"
        using Cons.prems(1) by simp
      moreover have "hd (replace_nonempty old new s) = x"
        using Cons.prems(3) by (auto simp: startswith_iff)
      ultimately show ?thesis using Cons.prems(2) by simp
    next
      case False
      then have e: "replace_nonempty old new s = d # replace_nonempty old new ds"
        using Cons by auto
      from Cons.prems(3) obtain t where t: "d # replace_nonempty old new ds = (x # p) @ t"
        unfolding e by (auto simp: startswith_iff)
      then have dx: "d = x" and "replace_nonempty old new ds = p @ t" by simp_all
      then have "startswith (replace_nonempty old new ds) p" by (auto simp: startswith_iff)
      then have "startswith ds p" using Cons.IH Cons.prems(1,2) by simp
      then show ?thesis using dx Cons by (auto simp: startswith_iff)
    qed
  qed
qed

lemma replace_nonempty_none_left:
  assumes "old \<noteq> []" and "new \<noteq> []" and "hd old \<notin> set new" and "hd new \<notin> set (tl old)"
  shows "\<not> contains (replace_nonempty old new s) old"
  using assms
proof (induction old new s rule: replace_nonempty.induct)
  case (1 old new)
  then show ?case by simp
next
  case (2 old new c cs)
  show ?case
  proof (cases "startswith (c # cs) old")
    case True
    then have e: "replace_nonempty old new (c # cs)
        = new @ replace_nonempty old new (drop (length old) (c # cs))"
      using "2.prems"(1) by simp
    have "\<not> contains (replace_nonempty old new (drop (length old) (c # cs))) old"
      using "2.IH"(1) True "2.prems" by simp
    then show ?thesis
      unfolding e using contains_append_no_start [OF "2.prems"(1,3)] by simp
  next
    case False
    then have e: "replace_nonempty old new (c # cs) = c # replace_nonempty old new cs"
      by simp
    have ih: "\<not> contains (replace_nonempty old new cs) old"
      using "2.IH"(2) False "2.prems" by simp
    have "\<not> startswith (c # replace_nonempty old new cs) old"
    proof
      assume a: "startswith (c # replace_nonempty old new cs) old"
      obtain y ys where old: "old = y # ys" using "2.prems"(1) by (cases old) auto
      from a obtain t where "c # replace_nonempty old new cs = (y # ys) @ t"
        unfolding old by (auto simp: startswith_iff)
      then have cy: "c = y" and "replace_nonempty old new cs = ys @ t" by simp_all
      then have "startswith (replace_nonempty old new cs) ys" by (auto simp: startswith_iff)
      then have "startswith cs ys"
        using replace_nonempty_prefix [OF "2.prems"(2)] "2.prems"(4) old by simp
      then have "startswith (c # cs) old" using cy old by (auto simp: startswith_iff)
      then show False using False by simp
    qed
    then show ?thesis unfolding e using ih by simp
  qed
qed

lemma str_replace_unk_none_left:
  "\<not> contains (str_replace ''<unk>'' ''little'' v) ''<unk>''"
proof -
  have "\<not> contains (replace_nonempty ''<unk>'' ''little'' v) ''<unk>''"
    by (rule replace_nonempty_none_left) simp_all
  then show ?thesis by (simp add: str_replace_def)
qed


lemma open_write_read:
  assumes "open_write fs path (Some s) = Inr fs'"
  shows "open_read fs' path = Inr (universal_newlines s)"
proof -
  from assms have nd: "path \<notin> dirs fs"
    and fs': "fs' = fs\<lparr>files := (files fs)(path \<mapsto> write_newlines s)\<rparr>"
    by (auto simp: open_write_def split: if_splits)
  show ?thesis using nd by (simp add: fs' open_read_def write_newlines_id)
qed

lemma load_assets_after_save:
  assumes "vocab self = Some v" and "save_assets self inner_path fs = Inr fs'"
  shows "load_assets self' inner_path fs' =
           Inr (self'\<lparr>vocab := Some (str_replace ''<unk>'' ''little'' (universal_newlines v))\<rparr>)"
proof -
  let ?p = "os_path_join inner_path ''vocabulary.txt''"
  have "open_write fs ?p (Some v) = Inr fs'"
    using assms by (simp add: save_assets_def)
  then have "open_read fs' ?p = Inr (universal_newlines v)"
    by (rule open_write_read)
  then show ?thesis by (simp add: load_assets_def)
qed

lemma join_assets_vocabulary:
  "os_path_join ''assets'' ''vocabulary.txt'' = ''assets/vocabulary.txt''"
  by (simp add: os_path_join_def startswith_def)

lemma dirname_assets_vocabulary:
  "os_path_dirname ''assets/vocabulary.txt'' = ''assets''"
  by (simp add: os_path_dirname_def)

subsection \<open>Saving and loading the assets\<close>

text \<open>
  \<^verbatim>\<open>save_assets\<close> returns whenever the layer has a sentence, the target is not a
  directory and its directory exists.
\<close>

lemma save_assets_succeeds:
  assumes "vocab self = Some v"
    and "os_path_join inner_path ''vocabulary.txt'' \<notin> dirs fs"
    and "dir_exists fs (os_path_dirname (os_path_join inner_path ''vocabulary.txt''))"
  shows "\<exists>fs'. save_assets self inner_path fs = Inr fs'"
  using assms by (simp add: save_assets_def open_write_def)

text \<open>
  C3, as stated for every string: a sentence that is a single carriage return has no
  \<^verbatim>\<open><unk>\<close> in it, is written as it is, and is read back as a line feed. The loaded
  vocab is neither the saved string after the replacement nor the saved string.
\<close>

theorem save_load_assets_carriage_return:
  "save_assets \<lparr>vocab = Some [CR]\<rparr> ''assets'' \<lparr>dirs = {''assets''}, files = Map.empty\<rparr>
     = Inr \<lparr>dirs = {''assets''}, files = [''assets/vocabulary.txt'' \<mapsto> [CR]]\<rparr>
   \<and> load_assets \<lparr>vocab = Some [CR]\<rparr> ''assets''
         \<lparr>dirs = {''assets''}, files = [''assets/vocabulary.txt'' \<mapsto> [CR]]\<rparr>
     = Inr \<lparr>vocab = Some [LF]\<rparr>
   \<and> str_replace ''<unk>'' ''little'' [CR] = [CR]
   \<and> \<not> contains [CR] ''<unk>''
   \<and> [LF] \<noteq> [CR]"
  by (simp add: save_assets_def load_assets_def open_write_def open_read_def dir_exists_def
      join_assets_vocabulary dirname_assets_vocabulary write_newlines_id str_replace_def
      startswith_def)

text \<open>
  C3, amended: for every sentence \<open>v\<close> without a carriage return, if \<^verbatim>\<open>save_assets\<close> on a
  layer whose vocab is \<open>v\<close> returns, then \<^verbatim>\<open>load_assets\<close> on the same directory returns
  and sets the vocab of the loading layer to \<open>v\<close> with every occurrence of \<^verbatim>\<open><unk>\<close>
  replaced by \<^verbatim>\<open>little\<close>, so that none is left; this loaded vocab is \<open>v\<close> again if
  and only if \<^verbatim>\<open><unk>\<close> does not occur in \<open>v\<close>.
\<close>

theorem save_load_assets:
  assumes "vocab self = Some v"
    and "CR \<notin> set v"
    and "save_assets self inner_path fs = Inr fs'"
  shows "load_assets self' inner_path fs' =
           Inr (self'\<lparr>vocab := Some (str_replace ''<unk>'' ''little'' v)\<rparr>)
         \<and> \<not> contains (str_replace ''<unk>'' ''little'' v) ''<unk>''
         \<and> (str_replace ''<unk>'' ''little'' v = v \<longleftrightarrow> \<not> contains v ''<unk>'')"
proof -
  have "load_assets self' inner_path fs' =
      Inr (self'\<lparr>vocab := Some (str_replace ''<unk>'' ''little'' (universal_newlines v))\<rparr>)"
    using assms(1,3) by (rule load_assets_after_save)
  then show ?thesis
    using assms(2) str_replace_unk_fixed str_replace_unk_none_left
    by (simp add: universal_newlines_id)
qed

theorem save_load_assets_witness:
  "vocab \<lparr>vocab = Some ''a <unk> b''\<rparr> = Some ''a <unk> b''
   \<and> CR \<notin> set ''a <unk> b''
   \<and> save_assets \<lparr>vocab = Some ''a <unk> b''\<rparr> ''assets''
         \<lparr>dirs = {''assets''}, files = Map.empty\<rparr>
       = Inr \<lparr>dirs = {''assets''}, files = [''assets/vocabulary.txt'' \<mapsto> ''a <unk> b'']\<rparr>
   \<and> load_assets \<lparr>vocab = Some ''a <unk> b''\<rparr> ''assets''
         \<lparr>dirs = {''assets''}, files = [''assets/vocabulary.txt'' \<mapsto> ''a <unk> b'']\<rparr>
       = Inr \<lparr>vocab = Some ''a little b''\<rparr>
   \<and> contains ''a <unk> b'' ''<unk>''"
proof -
  let ?self = "\<lparr>vocab = Some ''a <unk> b''\<rparr>"
  let ?fs = "\<lparr>dirs = {''assets''}, files = Map.empty\<rparr>"
  let ?fs' = "\<lparr>dirs = {''assets''}, files = [''assets/vocabulary.txt'' \<mapsto> ''a <unk> b'']\<rparr>"
  have h1: "vocab ?self = Some ''a <unk> b''" by simp
  have h2: "CR \<notin> set ''a <unk> b''" by simp
  have h3: "save_assets ?self ''assets'' ?fs = Inr ?fs'"
    by (simp add: save_assets_def open_write_def dir_exists_def join_assets_vocabulary
        dirname_assets_vocabulary write_newlines_id)
  have r: "str_replace ''<unk>'' ''little'' ''a <unk> b'' = ''a little b''"
    by (simp add: str_replace_def startswith_def)
  have c: "contains ''a <unk> b'' ''<unk>''"
    by (simp add: startswith_def)
  show ?thesis
    using save_load_assets [OF h1 h2 h3, of ?self] h1 h2 h3 c by (simp add: r)
qed

subsection \<open>Decimal numerals are distinct keys\<close>

lemma digit_val_digit_char: "d < 10 \<Longrightarrow> digit_val (digit_char d) = d"
proof -
  assume "d < 10"
  then have "d \<in> {0, 1, 2, 3, 4, 5, 6, 7, 8, 9}" by auto
  then show ?thesis
    by (auto simp: digit_val_def digit_char_def)
qed

lemma int_of_str_snoc: "int_of_str (s @ [c]) = 10 * int_of_str s + digit_val c"
  by (simp add: int_of_str_def)

lemma int_of_str_str_nat: "int_of_str (str_nat n) = n"
proof (induction n rule: str_nat.induct)
  case (1 n)
  show ?case
  proof (cases "n < 10")
    case True
    then have "str_nat n = [digit_char n]" by (simp add: str_nat.simps)
    then show ?thesis using True by (simp add: int_of_str_def digit_val_digit_char)
  next
    case False
    then have "str_nat n = str_nat (n div 10) @ [digit_char (n mod 10)]"
      by (subst str_nat.simps) simp
    then show ?thesis using False "1.IH"
      by (simp add: int_of_str_snoc digit_val_digit_char)
  qed
qed

lemma str_nat_inject: "str_nat i = str_nat j \<longleftrightarrow> i = j"
  by (metis int_of_str_str_nat)

lemma digit_char_in: "d < 10 \<Longrightarrow> digit_char d \<in> set ''0123456789''"
  unfolding digit_char_def by (rule nth_mem) simp

lemma str_nat_digits: "set (str_nat n) \<subseteq> set ''0123456789''"
proof (induction n rule: str_nat.induct)
  case (1 n)
  show ?case
  proof (cases "n < 10")
    case True
    then have "str_nat n = [digit_char n]" by (simp add: str_nat.simps)
    then show ?thesis using digit_char_in [OF True] by simp
  next
    case False
    then have e: "str_nat n = str_nat (n div 10) @ [digit_char (n mod 10)]"
      by (subst str_nat.simps) simp
    have "digit_char (n mod 10) \<in> set ''0123456789''" by (rule digit_char_in) simp
    then show ?thesis using False "1.IH" by (simp add: e)
  qed
qed

lemma str_nat_not_variables: "str_nat i \<noteq> ''variables''"
proof
  assume "str_nat i = ''variables''"
  then have "CHR ''v'' \<in> set (str_nat i)" by simp
  then have "CHR ''v'' \<in> set ''0123456789''" using str_nat_digits by blast
  then show False by simp
qed


subsection \<open>Saving and loading the variables\<close>

lemma save_enumerate_other:
  "k \<notin> str_nat ` {i..<i + length vs} \<Longrightarrow> save_enumerate h i vs store k = store k"
proof (induction vs arbitrary: i store)
  case Nil
  then show ?case by simp
next
  case (Cons v vs)
  have a: "k \<noteq> str_nat i" using Cons.prems by auto
  have "k \<notin> str_nat ` {Suc i..<Suc i + length vs}" using Cons.prems by auto
  then have "save_enumerate h (Suc i) vs (store(str_nat i \<mapsto> h v)) k
      = (store(str_nat i \<mapsto> h v)) k"
    by (rule Cons.IH)
  then show ?case using a by simp
qed

lemma save_enumerate_lookup:
  "j < length vs \<Longrightarrow> save_enumerate h i vs store (str_nat (i + j)) = Some (h (vs ! j))"
proof (induction vs arbitrary: i j store)
  case Nil
  then show ?case by simp
next
  case (Cons v vs)
  show ?case
  proof (cases j)
    case 0
    have "str_nat i \<notin> str_nat ` {Suc i..<Suc i + length vs}"
      by (auto simp: str_nat_inject)
    then have "save_enumerate h (Suc i) vs (store(str_nat i \<mapsto> h v)) (str_nat i)
        = (store(str_nat i \<mapsto> h v)) (str_nat i)"
      by (rule save_enumerate_other)
    then show ?thesis using 0 by simp
  next
    case (Suc j')
    then have "j' < length vs" using Cons.prems by simp
    then have "save_enumerate h (Suc i) vs (store(str_nat i \<mapsto> h v)) (str_nat (Suc i + j'))
        = Some (h (vs ! j'))"
      by (rule Cons.IH)
    then show ?thesis using Suc by simp
  qed
qed

lemma save_own_variables_variables:
  "save_own_variables h self store ''variables'' = Some (h (stored_variables self))"
  by (simp add: save_own_variables_def)

lemma save_own_variables_weight:
  assumes "i < length (weights self)"
  shows "save_own_variables h self store (str_nat i) = Some (h (weights self ! i))"
proof -
  have "save_enumerate h 0 (weights self) store (str_nat (0 + i)) = Some (h (weights self ! i))"
    using assms by (rule save_enumerate_lookup)
  then show ?thesis
    by (simp add: save_own_variables_def Layer_save_own_variables_def weights_def
        str_nat_not_variables)
qed

lemma load_enumerate_assigns:
  assumes "length xs = length vs"
    and "\<forall>i<length vs. store (str_nat (k + i)) = Some (xs ! i)"
    and "\<forall>i<length vs. shape (xs ! i) = shape (h (vs ! i))"
    and "\<forall>i<length vs. \<forall>j<length vs. vs ! i = vs ! j \<longrightarrow> xs ! i = xs ! j"
  shows "\<exists>h'. load_enumerate h k vs store = Inr h'
           \<and> (\<forall>i<length vs. h' (vs ! i) = xs ! i)
           \<and> (\<forall>a. a \<notin> set vs \<longrightarrow> h' a = h a)"
  using assms
proof (induction vs arbitrary: xs k h)
  case Nil
  then show ?case by simp
next
  case (Cons v vs)
  from Cons.prems(1) obtain x xs' where xs: "xs = x # xs'" and len: "length xs' = length vs"
    by (cases xs) auto
  let ?h = "h(v := x)"
  have key: "store (str_nat k) = Some x" using Cons.prems(2) xs by fastforce
  have "shape x = shape (h v)" using Cons.prems(3) xs by fastforce
  then have asg: "assign h v x = Inr ?h" by (simp add: assign_def)
  have st: "\<forall>i<length vs. store (str_nat (Suc k + i)) = Some (xs' ! i)"
  proof (intro allI impI)
    fix i assume "i < length vs"
    then have "Suc i < length (v # vs)" by simp
    then have "store (str_nat (k + Suc i)) = Some (xs ! Suc i)" using Cons.prems(2) by blast
    then show "store (str_nat (Suc k + i)) = Some (xs' ! i)" using xs by simp
  qed
  have al0: "\<And>i. i < length vs \<Longrightarrow> vs ! i = v \<Longrightarrow> xs' ! i = x"
  proof -
    fix i assume i: "i < length vs" and e: "vs ! i = v"
    have "(v # vs) ! Suc i = (v # vs) ! 0 \<longrightarrow> xs ! Suc i = xs ! 0"
      using Cons.prems(4) i by (metis length_Cons Suc_less_eq zero_less_Suc)
    then show "xs' ! i = x" using e xs by simp
  qed
  have sh: "\<forall>i<length vs. shape (xs' ! i) = shape (?h (vs ! i))"
  proof (intro allI impI)
    fix i assume i: "i < length vs"
    show "shape (xs' ! i) = shape (?h (vs ! i))"
    proof (cases "vs ! i = v")
      case True
      then show ?thesis using al0 [OF i] by simp
    next
      case False
      have "shape (xs ! Suc i) = shape (h ((v # vs) ! Suc i))"
        using Cons.prems(3) i by (metis length_Cons Suc_less_eq)
      then show ?thesis using False xs by simp
    qed
  qed
  have al: "\<forall>i<length vs. \<forall>j<length vs. vs ! i = vs ! j \<longrightarrow> xs' ! i = xs' ! j"
  proof (intro allI impI)
    fix i j assume i: "i < length vs" and j: "j < length vs" and e: "vs ! i = vs ! j"
    have "(v # vs) ! Suc i = (v # vs) ! Suc j \<longrightarrow> xs ! Suc i = xs ! Suc j"
      using Cons.prems(4) i j by (metis length_Cons Suc_less_eq)
    then show "xs' ! i = xs' ! j" using e xs by simp
  qed
  from Cons.IH [OF len st sh al] obtain h' where
    run: "load_enumerate ?h (Suc k) vs store = Inr h'"
    and got: "\<forall>i<length vs. h' (vs ! i) = xs' ! i"
    and rest: "\<forall>a. a \<notin> set vs \<longrightarrow> h' a = ?h a"
    by blast
  have r1: "load_enumerate h k (v # vs) store = Inr h'"
    using key asg run by simp
  have hv: "h' v = x"
  proof (cases "v \<in> set vs")
    case True
    then obtain i where "i < length vs" "vs ! i = v" by (auto simp: in_set_conv_nth)
    then show ?thesis using got al0 by metis
  next
    case False
    then show ?thesis using rest by simp
  qed
  have r2: "\<forall>i<length (v # vs). h' ((v # vs) ! i) = xs ! i"
  proof (intro allI impI)
    fix i assume i: "i < length (v # vs)"
    show "h' ((v # vs) ! i) = xs ! i"
    proof (cases i)
      case 0
      then show ?thesis using hv xs by simp
    next
      case (Suc i')
      then show ?thesis using got i xs by simp
    qed
  qed
  have r3: "\<forall>a. a \<notin> set (v # vs) \<longrightarrow> h' a = h a"
    using rest by simp
  show ?case using r1 r2 r3 by blast
qed


lemma load_own_variables_assigns:
  assumes var: "store ''variables'' = Some x"
    and len: "length xs = length (weights self)"
    and keys: "\<forall>i<length (weights self). store (str_nat i) = Some (xs ! i)"
    and sh0: "shape x = shape (h (stored_variables self))"
    and sh: "\<forall>i<length (weights self). shape (xs ! i) = shape (h (weights self ! i))"
    and al0: "\<forall>i<length (weights self). weights self ! i = stored_variables self \<longrightarrow> xs ! i = x"
    and al: "\<forall>i<length (weights self). \<forall>j<length (weights self).
               weights self ! i = weights self ! j \<longrightarrow> xs ! i = xs ! j"
  shows "\<exists>h'. load_own_variables h self store = Inr h'
           \<and> h' (stored_variables self) = x
           \<and> (\<forall>i<length (weights self). h' (weights self ! i) = xs ! i)
           \<and> (\<forall>a. a \<notin> set (stored_variables self # weights self) \<longrightarrow> h' a = h a)"
proof -
  let ?sv = "stored_variables self" and ?ws = "weights self"
  let ?h = "h(?sv := x)"
  have asg: "assign h ?sv x = Inr ?h" using sh0 by (simp add: assign_def)
  have keys': "\<forall>i<length ?ws. store (str_nat (0 + i)) = Some (xs ! i)" using keys by simp
  have sh': "\<forall>i<length ?ws. shape (xs ! i) = shape (?h (?ws ! i))"
  proof (intro allI impI)
    fix i assume i: "i < length ?ws"
    show "shape (xs ! i) = shape (?h (?ws ! i))"
    proof (cases "?ws ! i = ?sv")
      case True
      then have "xs ! i = x" using al0 i by blast
      then show ?thesis using True by simp
    next
      case False
      then show ?thesis using sh i by simp
    qed
  qed
  from load_enumerate_assigns [OF len keys' sh' al] obtain h' where
    run: "load_enumerate ?h 0 ?ws store = Inr h'"
    and got: "\<forall>i<length ?ws. h' (?ws ! i) = xs ! i"
    and rest: "\<forall>a. a \<notin> set ?ws \<longrightarrow> h' a = ?h a"
    by blast
  have r1: "load_own_variables h self store = Inr h'"
    using var asg run by (simp add: load_own_variables_def)
  have r2: "h' ?sv = x"
  proof (cases "?sv \<in> set ?ws")
    case True
    then obtain i where "i < length ?ws" "?ws ! i = ?sv" by (auto simp: in_set_conv_nth)
    then show ?thesis using got al0 by metis
  next
    case False
    then show ?thesis using rest by simp
  qed
  have r3: "\<forall>a. a \<notin> set (?sv # ?ws) \<longrightarrow> h' a = h a" using rest by simp
  show ?thesis using r1 r2 got r3 by blast
qed

text \<open>
  Loading into a layer with as many weights returns and gives that layer the saved values
  when each of its variables has the shape of the value saved for it and two of its variables
  are the same variable only where the values saved for them are the same. The saving layer
  itself is such a layer as long as its variables keep their shapes.
\<close>

lemma load_after_save_own_variables:
  assumes len: "length (weights self') = length (weights self)"
    and sh: "\<forall>i<length (layer_variables self).
               shape (h' (layer_variables self' ! i)) = shape (h (layer_variables self ! i))"
    and al: "\<forall>i<length (layer_variables self). \<forall>j<length (layer_variables self).
               layer_variables self' ! i = layer_variables self' ! j
               \<longrightarrow> h (layer_variables self ! i) = h (layer_variables self ! j)"
  shows "\<exists>h''. load_own_variables h' self' (save_own_variables h self store) = Inr h''
           \<and> h'' (stored_variables self') = h (stored_variables self)
           \<and> (\<forall>i<length (weights self). h'' (weights self' ! i) = h (weights self ! i))
           \<and> (\<forall>a. a \<notin> set (layer_variables self') \<longrightarrow> h'' a = h' a)"
proof -
  let ?store = "save_own_variables h self store"
  let ?xs = "map h (weights self)"
  let ?n = "length (weights self)"
  have nth0: "layer_variables self ! 0 = stored_variables self"
    "layer_variables self' ! 0 = stored_variables self'"
    by (simp_all add: layer_variables_def)
  have nthS: "\<And>i. layer_variables self ! Suc i = weights self ! i"
    "\<And>i. layer_variables self' ! Suc i = weights self' ! i"
    by (simp_all add: layer_variables_def)
  have lv: "length (layer_variables self) = Suc ?n" by (simp add: layer_variables_def)
  have var: "?store ''variables'' = Some (h (stored_variables self))"
    by (rule save_own_variables_variables)
  have l: "length ?xs = length (weights self')" using len by simp
  have keys: "\<forall>i<length (weights self'). ?store (str_nat i) = Some (?xs ! i)"
    using len by (simp add: save_own_variables_weight)
  have s0: "shape (h (stored_variables self)) = shape (h' (stored_variables self'))"
    using sh [rule_format, of 0] by (simp add: lv nth0)
  have s: "\<forall>i<length (weights self'). shape (?xs ! i) = shape (h' (weights self' ! i))"
  proof (intro allI impI)
    fix i assume i: "i < length (weights self')"
    then have "Suc i < length (layer_variables self)" using len by (simp add: lv)
    then have "shape (h' (layer_variables self' ! Suc i)) = shape (h (layer_variables self ! Suc i))"
      using sh by blast
    then show "shape (?xs ! i) = shape (h' (weights self' ! i))"
      using i len by (simp add: nthS)
  qed
  have a0: "\<forall>i<length (weights self'). weights self' ! i = stored_variables self'
              \<longrightarrow> ?xs ! i = h (stored_variables self)"
  proof (intro allI impI)
    fix i assume i: "i < length (weights self')"
      and e: "weights self' ! i = stored_variables self'"
    have "Suc i < length (layer_variables self)" "0 < length (layer_variables self)"
      using i len by (simp_all add: lv)
    moreover have "layer_variables self' ! Suc i = layer_variables self' ! 0"
      using e by (simp add: nth0 nthS)
    ultimately have "h (layer_variables self ! Suc i) = h (layer_variables self ! 0)"
      using al by blast
    then show "?xs ! i = h (stored_variables self)"
      using i len by (simp add: nth0 nthS)
  qed
  have a: "\<forall>i<length (weights self'). \<forall>j<length (weights self').
             weights self' ! i = weights self' ! j \<longrightarrow> ?xs ! i = ?xs ! j"
  proof (intro allI impI)
    fix i j assume i: "i < length (weights self')" and j: "j < length (weights self')"
      and e: "weights self' ! i = weights self' ! j"
    have "Suc i < length (layer_variables self)" "Suc j < length (layer_variables self)"
      using i j len by (simp_all add: lv)
    moreover have "layer_variables self' ! Suc i = layer_variables self' ! Suc j"
      using e by (simp add: nthS)
    ultimately have "h (layer_variables self ! Suc i) = h (layer_variables self ! Suc j)"
      using al by blast
    then show "?xs ! i = ?xs ! j" using i j len by (simp add: nthS)
  qed
  from load_own_variables_assigns [OF var l keys s0 s a0 a] show ?thesis
    using len by (auto simp: layer_variables_def)
qed

lemma load_after_save_same_layer:
  assumes "\<forall>a\<in>set (layer_variables self). shape (h' a) = shape (h a)"
  shows "\<exists>h''. load_own_variables h' self (save_own_variables h self store) = Inr h''
           \<and> h'' (stored_variables self) = h (stored_variables self)
           \<and> (\<forall>i<length (weights self). h'' (weights self ! i) = h (weights self ! i))
           \<and> (\<forall>a. a \<notin> set (layer_variables self) \<longrightarrow> h'' a = h' a)"
proof (rule load_after_save_own_variables)
  show "length (weights self) = length (weights self)" by simp
  show "\<forall>i<length (layer_variables self).
      shape (h' (layer_variables self ! i)) = shape (h (layer_variables self ! i))"
    using assms by simp
  show "\<forall>i<length (layer_variables self). \<forall>j<length (layer_variables self).
      layer_variables self ! i = layer_variables self ! j
      \<longrightarrow> h (layer_variables self ! i) = h (layer_variables self ! j)"
    by simp
qed

text \<open>
  C2, as stated: a load on any layer with the same number of weights would restore the saved
  values. With one weight each, a layer whose weight has another shape than the saved
  weight makes \<^verbatim>\<open>assign\<close> raise; and a layer whose \<^verbatim>\<open>stored_variables\<close> is also its
  first weight, loading what a layer with two different variables saved, ends with
  \<^verbatim>\<open>stored_variables\<close> holding the value saved under \<^verbatim>\<open>"0"\<close>, not the one saved
  under \<^verbatim>\<open>"variables"\<close>.
\<close>

theorem load_own_variables_other_layer_fails:
  "length (weights \<lparr>trainable_weights = [3], non_trainable_weights = [], stored_variables = 2\<rparr>)
     = length (weights \<lparr>trainable_weights = [1], non_trainable_weights = [], stored_variables = 0\<rparr>)
   \<and> load_own_variables (\<lambda>a. \<lparr>shape = [if a = 3 then 3 else 2],
                                elems = (if a = 3 then [0, 0, 0] else [0, 0 :: int])\<rparr>)
        \<lparr>trainable_weights = [3], non_trainable_weights = [], stored_variables = 2\<rparr>
        (save_own_variables (\<lambda>a. \<lparr>shape = [if a = 3 then 3 else 2],
                                   elems = (if a = 3 then [0, 0, 0] else [0, 0])\<rparr>)
           \<lparr>trainable_weights = [1], non_trainable_weights = [], stored_variables = 0\<rparr> Map.empty)
     = Inl ValueError
   \<and> length (weights \<lparr>trainable_weights = [2], non_trainable_weights = [], stored_variables = 2\<rparr>)
     = length (weights \<lparr>trainable_weights = [1], non_trainable_weights = [], stored_variables = 0\<rparr>)
   \<and> save_own_variables (\<lambda>a. \<lparr>shape = [1], elems = [int a]\<rparr>)
        \<lparr>trainable_weights = [1], non_trainable_weights = [], stored_variables = 0\<rparr> Map.empty
        ''variables'' = Some \<lparr>shape = [1], elems = [0]\<rparr>
   \<and> load_own_variables (\<lambda>a. \<lparr>shape = [1], elems = [int a]\<rparr>)
        \<lparr>trainable_weights = [2], non_trainable_weights = [], stored_variables = 2\<rparr>
        (save_own_variables (\<lambda>a. \<lparr>shape = [1], elems = [int a]\<rparr>)
           \<lparr>trainable_weights = [1], non_trainable_weights = [], stored_variables = 0\<rparr> Map.empty)
     = Inr ((\<lambda>a. \<lparr>shape = [1], elems = [int a]\<rparr>)(2 := \<lparr>shape = [1], elems = [1]\<rparr>))
   \<and> ((\<lambda>a. \<lparr>shape = [1], elems = [int a]\<rparr>)(2 := \<lparr>shape = [1], elems = [1]\<rparr>)) 2
     \<noteq> \<lparr>shape = [1], elems = [0]\<rparr>"
  by (simp add: load_own_variables_def save_own_variables_def Layer_save_own_variables_def
      weights_def assign_def str_nat.simps digit_char_def)


text \<open>
  C2, amended: \<^verbatim>\<open>save_own_variables\<close> on a layer, into any store (an empty one included),
  puts the value of \<^verbatim>\<open>stored_variables\<close> under the key \<^verbatim>\<open>"variables"\<close> and the
  value of the \<open>i\<close>-th weight under the key \<^verbatim>\<open>str(i)\<close>. A later
  \<^verbatim>\<open>load_own_variables\<close> from that store on a layer with the same number of weights,
  whose variables have the shapes of the values saved for them and coincide only where these
  values coincide, returns; afterwards its \<^verbatim>\<open>stored_variables\<close> holds the value saved
  under \<^verbatim>\<open>"variables"\<close>, its \<open>i\<close>-th weight the value saved under \<^verbatim>\<open>str(i)\<close>, and
  no other variable has changed. In particular a load on the saving layer itself, whose
  variables still have their shapes but may hold other values \<open>h'\<close> by then, returns and
  leaves \<^verbatim>\<open>stored_variables\<close> and every weight with the values they had when they were
  saved.
\<close>

theorem save_load_own_variables:
  "save_own_variables h self store ''variables'' = Some (h (stored_variables self))
   \<and> (\<forall>i<length (weights self).
         save_own_variables h self store (str_nat i) = Some (h (weights self ! i)))
   \<and> (length (weights self') = length (weights self)
        \<and> (\<forall>i<length (layer_variables self).
              shape (h' (layer_variables self' ! i)) = shape (h (layer_variables self ! i)))
        \<and> (\<forall>i<length (layer_variables self). \<forall>j<length (layer_variables self).
              layer_variables self' ! i = layer_variables self' ! j
              \<longrightarrow> h (layer_variables self ! i) = h (layer_variables self ! j))
        \<longrightarrow> (\<exists>h''. load_own_variables h' self' (save_own_variables h self store) = Inr h''
              \<and> h'' (stored_variables self') = h (stored_variables self)
              \<and> (\<forall>i<length (weights self). h'' (weights self' ! i) = h (weights self ! i))
              \<and> (\<forall>a. a \<notin> set (layer_variables self') \<longrightarrow> h'' a = h' a)))
   \<and> ((\<forall>a\<in>set (layer_variables self). shape (h' a) = shape (h a))
        \<longrightarrow> (\<exists>h''. load_own_variables h' self (save_own_variables h self store) = Inr h''
              \<and> h'' (stored_variables self) = h (stored_variables self)
              \<and> (\<forall>i<length (weights self). h'' (weights self ! i) = h (weights self ! i))
              \<and> (\<forall>a. a \<notin> set (layer_variables self) \<longrightarrow> h'' a = h' a)))"
proof (intro conjI impI)
  show "save_own_variables h self store ''variables'' = Some (h (stored_variables self))"
    by (rule save_own_variables_variables)
  show "\<forall>i<length (weights self).
      save_own_variables h self store (str_nat i) = Some (h (weights self ! i))"
    by (simp add: save_own_variables_weight)
next
  assume "length (weights self') = length (weights self)
        \<and> (\<forall>i<length (layer_variables self).
              shape (h' (layer_variables self' ! i)) = shape (h (layer_variables self ! i)))
        \<and> (\<forall>i<length (layer_variables self). \<forall>j<length (layer_variables self).
              layer_variables self' ! i = layer_variables self' ! j
              \<longrightarrow> h (layer_variables self ! i) = h (layer_variables self ! j))"
  then show "\<exists>h''. load_own_variables h' self' (save_own_variables h self store) = Inr h''
              \<and> h'' (stored_variables self') = h (stored_variables self)
              \<and> (\<forall>i<length (weights self). h'' (weights self' ! i) = h (weights self ! i))
              \<and> (\<forall>a. a \<notin> set (layer_variables self') \<longrightarrow> h'' a = h' a)"
    by (intro load_after_save_own_variables) blast+
next
  assume "\<forall>a\<in>set (layer_variables self). shape (h' a) = shape (h a)"
  then show "\<exists>h''. load_own_variables h' self (save_own_variables h self store) = Inr h''
              \<and> h'' (stored_variables self) = h (stored_variables self)
              \<and> (\<forall>i<length (weights self). h'' (weights self ! i) = h (weights self ! i))
              \<and> (\<forall>a. a \<notin> set (layer_variables self) \<longrightarrow> h'' a = h' a)"
    by (rule load_after_save_same_layer)
qed

theorem save_load_own_variables_witness:
  "layer_variables \<lparr>trainable_weights = [0, 1, 2], non_trainable_weights = [],
                     stored_variables = 0\<rparr> = [0, 0, 1, 2]
   \<and> layer_variables \<lparr>trainable_weights = [3, 4, 5], non_trainable_weights = [],
                       stored_variables = 3\<rparr> = [3, 3, 4, 5]
   \<and> (\<exists>h''. load_own_variables (\<lambda>a. \<lparr>shape = [2], elems = [int a, 7]\<rparr>)
               \<lparr>trainable_weights = [3, 4, 5], non_trainable_weights = [], stored_variables = 3\<rparr>
               (save_own_variables (\<lambda>a. \<lparr>shape = [2], elems = [int a, 7]\<rparr>)
                  \<lparr>trainable_weights = [0, 1, 2], non_trainable_weights = [],
                   stored_variables = 0\<rparr> Map.empty) = Inr h''
          \<and> h'' 3 = \<lparr>shape = [2], elems = [0, 7]\<rparr>
          \<and> h'' 4 = \<lparr>shape = [2], elems = [1, 7]\<rparr>
          \<and> h'' 5 = \<lparr>shape = [2], elems = [2, 7]\<rparr>
          \<and> h'' 0 = \<lparr>shape = [2], elems = [0, 7]\<rparr>)
   \<and> (\<exists>h''. load_own_variables (\<lambda>a. \<lparr>shape = [2], elems = [0, 0]\<rparr>)
               \<lparr>trainable_weights = [0, 1, 2], non_trainable_weights = [], stored_variables = 0\<rparr>
               (save_own_variables (\<lambda>a. \<lparr>shape = [2], elems = [int a, 7]\<rparr>)
                  \<lparr>trainable_weights = [0, 1, 2], non_trainable_weights = [],
                   stored_variables = 0\<rparr> Map.empty) = Inr h''
          \<and> h'' 0 = \<lparr>shape = [2], elems = [0, 7]\<rparr>
          \<and> h'' 2 = \<lparr>shape = [2], elems = [2, 7]\<rparr>
          \<and> h'' 6 = \<lparr>shape = [2], elems = [0, 0]\<rparr>)"
proof -
  let ?L = "\<lparr>trainable_weights = [0, 1, 2], non_trainable_weights = [], stored_variables = 0\<rparr>"
  let ?R = "\<lparr>trainable_weights = [3, 4, 5], non_trainable_weights = [], stored_variables = 3\<rparr>"
  let ?h = "\<lambda>a::nat. \<lparr>shape = [2::nat], elems = [int a, 7]\<rparr>"
  let ?z = "\<lambda>a::nat. \<lparr>shape = [2::nat], elems = [0, 0 :: int]\<rparr>"
  have lL: "layer_variables ?L = [0, 0, 1, 2]" by (simp add: layer_variables_def weights_def)
  have lR: "layer_variables ?R = [3, 3, 4, 5]" by (simp add: layer_variables_def weights_def)
  have four: "\<And>i. i < length (layer_variables ?L) \<longleftrightarrow> i = 0 \<or> i = 1 \<or> i = 2 \<or> i = 3"
    unfolding lL by auto
  have g1: "length (weights ?R) = length (weights ?L)" by (simp add: weights_def)
  have g2: "\<forall>i<length (layer_variables ?L).
      shape (?h (layer_variables ?R ! i)) = shape (?h (layer_variables ?L ! i))"
    by simp
  have g3: "\<forall>i<length (layer_variables ?L). \<forall>j<length (layer_variables ?L).
      layer_variables ?R ! i = layer_variables ?R ! j
      \<longrightarrow> ?h (layer_variables ?L ! i) = ?h (layer_variables ?L ! j)"
    unfolding four unfolding lL lR by auto
  have s1: "\<forall>a\<in>set (layer_variables ?L). shape (?z a) = shape (?h a)" by simp
  note t1 = save_load_own_variables [of ?h ?L Map.empty ?R ?h]
  note c1 = t1 [THEN conjunct2, THEN conjunct2, THEN conjunct1]
  from mp [OF c1 conjI [OF g1 conjI [OF g2 g3]]] obtain k where
    k: "load_own_variables ?h ?R (save_own_variables ?h ?L Map.empty) = Inr k"
    "k (stored_variables ?R) = ?h (stored_variables ?L)"
    "\<forall>i<length (weights ?L). k (weights ?R ! i) = ?h (weights ?L ! i)"
    "\<forall>a. a \<notin> set (layer_variables ?R) \<longrightarrow> k a = ?h a"
    by blast
  have k3: "k 3 = \<lparr>shape = [2], elems = [0, 7]\<rparr>" using k(2) by simp
  have k4: "k 4 = \<lparr>shape = [2], elems = [1, 7]\<rparr>"
    using k(3) [rule_format, of 1] by (simp add: weights_def)
  have k5: "k 5 = \<lparr>shape = [2], elems = [2, 7]\<rparr>"
    using k(3) [rule_format, of 2] by (simp add: weights_def)
  have k0: "k 0 = \<lparr>shape = [2], elems = [0, 7]\<rparr>"
    using k(4) [rule_format, of 0] by (simp add: layer_variables_def weights_def)
  note t2 = save_load_own_variables [of ?h ?L Map.empty ?L ?z]
  note c2 = t2 [THEN conjunct2, THEN conjunct2, THEN conjunct2]
  from mp [OF c2 s1] obtain m where
    m: "load_own_variables ?z ?L (save_own_variables ?h ?L Map.empty) = Inr m"
    "m (stored_variables ?L) = ?h (stored_variables ?L)"
    "\<forall>i<length (weights ?L). m (weights ?L ! i) = ?h (weights ?L ! i)"
    "\<forall>a. a \<notin> set (layer_variables ?L) \<longrightarrow> m a = ?z a"
    by blast
  have m0: "m 0 = \<lparr>shape = [2], elems = [0, 7]\<rparr>" using m(2) by simp
  have m2: "m 2 = \<lparr>shape = [2], elems = [2, 7]\<rparr>"
    using m(3) [rule_format, of 2] by (simp add: weights_def)
  have m6: "m 6 = \<lparr>shape = [2], elems = [0, 0]\<rparr>"
    using m(4) [rule_format, of 6] by (simp add: layer_variables_def weights_def)
  have A: "\<exists>h''. load_own_variables ?h ?R (save_own_variables ?h ?L Map.empty) = Inr h''
          \<and> h'' 3 = \<lparr>shape = [2], elems = [0, 7]\<rparr>
          \<and> h'' 4 = \<lparr>shape = [2], elems = [1, 7]\<rparr>
          \<and> h'' 5 = \<lparr>shape = [2], elems = [2, 7]\<rparr>
          \<and> h'' 0 = \<lparr>shape = [2], elems = [0, 7]\<rparr>"
    using k(1) k3 k4 k5 k0 by blast
  have B: "\<exists>h''. load_own_variables ?z ?L (save_own_variables ?h ?L Map.empty) = Inr h''
          \<and> h'' 0 = \<lparr>shape = [2], elems = [0, 7]\<rparr>
          \<and> h'' 2 = \<lparr>shape = [2], elems = [2, 7]\<rparr>
          \<and> h'' 6 = \<lparr>shape = [2], elems = [0, 0]\<rparr>"
    using m(1) m0 m2 m6 by blast
  show ?thesis by (intro conjI) (rule lL lR A B)+
qed

subsection \<open>The loss\<close>

lemma broadcast_rev_same: "broadcast_rev xs xs = Some xs"
  by (induction xs) simp_all

lemma broadcast_rev_commute: "broadcast_rev xs ys = broadcast_rev ys xs"
proof (induction xs ys rule: broadcast_rev.induct)
  case (1 ys)
  then show ?case by (cases ys) simp_all
next
  case (2 x xs)
  then show ?case by simp
next
  case (3 x xs y ys)
  then show ?case by auto
qed

lemma broadcast_shapes_same: "broadcast_shapes s s = Some s"
  by (simp add: broadcast_shapes_def broadcast_rev_same)

lemma broadcast_shapes_commute: "broadcast_shapes s t = broadcast_shapes t s"
  by (simp add: broadcast_shapes_def broadcast_rev_commute)

lemma source_index_same: "k < prod_list ds \<Longrightarrow> source_index ds ds k = k"
proof (induction ds arbitrary: k)
  case Nil
  then show ?case by simp
next
  case (Cons d ds)
  have "k < prod_list ds * d" using Cons.prems by (simp add: mult.commute)
  then have "k div d < prod_list ds" by (rule less_mult_imp_div_less)
  then have "source_index ds ds (k div d) = k div d" by (rule Cons.IH)
  then show ?case by simp
qed

lemma broadcast_op_commute: "broadcast_op f a b = broadcast_op (\<lambda>u v. f v u) b a"
  by (simp add: broadcast_op_def broadcast_shapes_commute [of "shape a" "shape b"]
      split: option.splits)

lemma broadcast_op_same_shape:
  assumes "well_shaped a" and "well_shaped b" and "shape b = shape a"
  shows "broadcast_op f a b = Inr \<lparr>shape = shape a, elems = map2 f (elems a) (elems b)\<rparr>"
proof -
  let ?n = "prod_list (shape a)"
  have la: "length (elems a) = ?n" and lb: "length (elems b) = ?n"
    using assms by (simp_all add: well_shaped_def)
  have idx: "\<And>k. k < ?n \<Longrightarrow> source_index (rev (shape a)) (rev (shape a)) k = k"
    by (rule source_index_same) (simp add: prod_list.rev)
  have "map (\<lambda>k. f (elems a ! source_index (rev (shape a)) (rev (shape a)) k)
                   (elems b ! source_index (rev (shape a)) (rev (shape a)) k)) [0..<?n]
        = map2 f (elems a) (elems b)"
    by (rule nth_equalityI) (simp_all add: la lb idx)
  then show ?thesis
    by (simp add: broadcast_op_def broadcast_shapes_same assms(3))
qed

lemma squared_difference_commute: "squared_difference x y = squared_difference y x"
proof -
  have "(\<lambda>u v::real. (u - v) * (u - v)) = (\<lambda>u v. (v - u) * (v - u))"
    by (intro ext) algebra
  then show ?thesis
    unfolding squared_difference_def by (subst broadcast_op_commute) simp
qed

lemma small_square_sum_loss_commute:
  "small_square_sum_loss a b = small_square_sum_loss b a"
  by (simp add: small_square_sum_loss_def squared_difference_commute [of a b])

text \<open>A tensor of rank below two has no second axis: the loss raises.\<close>

lemma small_square_sum_loss_low_rank:
  assumes "length (shape y_true) < 2" and "shape y_pred = shape y_true"
  shows "small_square_sum_loss y_true y_pred = Inl InvalidArgumentError"
proof -
  have "broadcast_shapes (shape y_pred) (shape y_true) = Some (shape y_true)"
    using assms(2) by (simp add: broadcast_shapes_same)
  moreover have "shape y_true = [] \<or> (\<exists>d. shape y_true = [d])"
    using assms(1) by (cases "shape y_true") (auto simp: less_Suc_eq length_Suc_conv)
  ultimately show ?thesis
    by (auto simp: small_square_sum_loss_def squared_difference_def broadcast_op_def
        divide_scalar_def reduce_sum_axis1_def)
qed

lemma sum_list_divide: "sum_list (map (\<lambda>j. g j / c) js) = sum_list (map g js) / (c::real)"
  by (induction js) (simp_all add: add_divide_distrib)

lemma axis1_index_bound:
  assumes "k < d0 * r" and "j < d1"
  shows "axis1_index d1 r k j < d0 * d1 * r"
proof -
  have r: "0 < r" using assms(1) by (cases r) simp_all
  have "k < d0 * r" by (rule assms(1))
  then have i: "k div r < d0" by (rule less_mult_imp_div_less)
  have "(k div r) * d1 + j < (k div r) * d1 + d1" using assms(2) by simp
  also have "\<dots> = Suc (k div r) * d1" by simp
  also have "\<dots> \<le> d0 * d1" using i by (intro mult_le_mono1) simp
  finally have a: "(k div r) * d1 + j < d0 * d1" .
  have "axis1_index d1 r k j < ((k div r) * d1 + j) * r + r"
    using r by (simp add: axis1_index_def)
  also have "\<dots> = Suc ((k div r) * d1 + j) * r" by simp
  also have "\<dots> \<le> (d0 * d1) * r" using a by (intro mult_le_mono1) simp
  finally show ?thesis .
qed

lemma axis1_index_row: "q < r \<Longrightarrow> axis1_index d1 r (i * r + q) j = (i * d1 + j) * r + q"
  by (simp add: axis1_index_def)


lemma row_index_bound:
  assumes "i < d0" and "q < (r::nat)"
  shows "i * r + q < d0 * r"
proof -
  have "i * r + q < i * r + r" using assms(2) by simp
  also have "\<dots> = Suc i * r" by simp
  also have "\<dots> \<le> d0 * r" using assms(1) by (intro mult_le_mono1) simp
  finally show ?thesis .
qed

text \<open>
  C9: for tensors \<open>y_true\<close> and \<open>y_pred\<close> of the same shape \<open>d0 # d1 # rest\<close>, the loss
  is a tensor of shape \<open>d0 # rest\<close> whose element at \<open>(i, q)\<close> is the sum over the second
  axis of the squares of \<open>y_pred - y_true\<close>, divided by ten, in exact arithmetic; and the
  loss of \<open>y_true\<close> and \<open>y_pred\<close> is the loss of \<open>y_pred\<close> and \<open>y_true\<close>.
\<close>

theorem small_square_sum_loss_value:
  assumes wt: "well_shaped y_true" and wp: "well_shaped y_pred"
    and st: "shape y_true = d0 # d1 # rest" and sp: "shape y_pred = shape y_true"
  shows "\<exists>loss. small_square_sum_loss y_true y_pred = Inr loss
           \<and> shape loss = d0 # rest
           \<and> well_shaped loss
           \<and> (\<forall>i<d0. \<forall>q<prod_list rest.
                 elems loss ! (i * prod_list rest + q)
                   = (\<Sum>j<d1. (axis1_elem d1 (prod_list rest) y_pred i j q
                                - axis1_elem d1 (prod_list rest) y_true i j q)\<^sup>2) / 10)
           \<and> small_square_sum_loss y_true y_pred = small_square_sum_loss y_pred y_true"
proof -
  let ?r = "prod_list rest"
  let ?f = "\<lambda>u v::real. (u - v) * (u - v)"
  let ?sq = "map2 ?f (elems y_pred) (elems y_true)"
  let ?E = "map (\<lambda>u. u / 10) ?sq"
  let ?loss = "\<lparr>shape = d0 # rest,
               elems = map (\<lambda>k. sum_list (map (\<lambda>j. ?E ! axis1_index d1 ?r k j) [0..<d1]))
                         [0..<d0 * ?r]\<rparr>"
  have lt: "length (elems y_true) = d0 * d1 * ?r" using wt st by (simp add: well_shaped_def)
  have lp: "length (elems y_pred) = d0 * d1 * ?r" using wp st sp by (simp add: well_shaped_def)
  have sq: "squared_difference y_pred y_true = Inr \<lparr>shape = shape y_pred, elems = ?sq\<rparr>"
    unfolding squared_difference_def
    by (rule broadcast_op_same_shape [OF wp wt]) (simp add: sp)
  have run: "small_square_sum_loss y_true y_pred = Inr ?loss"
    by (simp add: small_square_sum_loss_def sq divide_scalar_def reduce_sum_axis1_def sp st)
  have lE: "length ?E = d0 * d1 * ?r" using lt lp by simp
  have pt: "elems ?loss ! (i * ?r + q)
      = (\<Sum>j<d1. (axis1_elem d1 ?r y_pred i j q - axis1_elem d1 ?r y_true i j q)\<^sup>2) / 10"
    if i: "i < d0" and q: "q < ?r" for i q
  proof -
    let ?g = "\<lambda>j. (axis1_elem d1 ?r y_pred i j q - axis1_elem d1 ?r y_true i j q)\<^sup>2"
    have k: "i * ?r + q < d0 * ?r" using i q by (rule row_index_bound)
    have el: "?E ! axis1_index d1 ?r (i * ?r + q) j = ?g j / 10" if j: "j < d1" for j
    proof -
      have b: "axis1_index d1 ?r (i * ?r + q) j < d0 * d1 * ?r"
        using k j by (rule axis1_index_bound)
      have e: "axis1_index d1 ?r (i * ?r + q) j = (i * d1 + j) * ?r + q"
        using q by (rule axis1_index_row)
      have "?E ! axis1_index d1 ?r (i * ?r + q) j
          = ?f (elems y_pred ! axis1_index d1 ?r (i * ?r + q) j)
               (elems y_true ! axis1_index d1 ?r (i * ?r + q) j) / 10"
        using b lt lp by simp
      then show ?thesis by (simp add: e axis1_elem_def power2_eq_square)
    qed
    have "elems ?loss ! (i * ?r + q)
        = sum_list (map (\<lambda>j. ?E ! axis1_index d1 ?r (i * ?r + q) j) [0..<d1])"
      using k by simp
    also have "\<dots> = sum_list (map (\<lambda>j. ?g j / 10) [0..<d1])"
    proof (rule arg_cong [where f = sum_list], rule map_cong [OF refl])
      fix j assume "j \<in> set [0..<d1]"
      then have "j < d1" by simp
      then show "?E ! axis1_index d1 ?r (i * ?r + q) j = ?g j / 10" by (rule el)
    qed
    also have "\<dots> = sum_list (map ?g [0..<d1]) / 10" by (rule sum_list_divide)
    also have "\<dots> = (\<Sum>j<d1. ?g j) / 10"
      by (simp add: interv_sum_list_conv_sum_set_nat lessThan_atLeast0)
    finally show ?thesis .
  qed
  have "shape ?loss = d0 # rest" by simp
  moreover have "well_shaped ?loss" by (simp add: well_shaped_def)
  moreover have "\<forall>i<d0. \<forall>q<?r. elems ?loss ! (i * ?r + q)
      = (\<Sum>j<d1. (axis1_elem d1 ?r y_pred i j q - axis1_elem d1 ?r y_true i j q)\<^sup>2) / 10"
    using pt by blast
  ultimately show ?thesis using run small_square_sum_loss_commute by blast
qed

theorem small_square_sum_loss_value_witness:
  "well_shaped \<lparr>shape = [2, 2], elems = [1, 2, 3, 4 :: real]\<rparr>
   \<and> well_shaped \<lparr>shape = [2, 2], elems = [0, 0, 0, 0 :: real]\<rparr>
   \<and> (\<exists>loss. small_square_sum_loss \<lparr>shape = [2, 2], elems = [1, 2, 3, 4]\<rparr>
                 \<lparr>shape = [2, 2], elems = [0, 0, 0, 0]\<rparr> = Inr loss
          \<and> shape loss = [2]
          \<and> elems loss ! 0 = 1 / 2
          \<and> elems loss ! 1 = 5 / 2)"
proof -
  let ?t = "\<lparr>shape = [2, 2], elems = [1, 2, 3, 4 :: real]\<rparr>"
  let ?p = "\<lparr>shape = [2, 2], elems = [0, 0, 0, 0 :: real]\<rparr>"
  have wt: "well_shaped ?t" by (simp add: well_shaped_def)
  have wp: "well_shaped ?p" by (simp add: well_shaped_def)
  have st: "shape ?t = 2 # 2 # []" by simp
  have sp: "shape ?p = shape ?t" by simp
  from small_square_sum_loss_value [OF wt wp st sp] obtain loss where
    run: "small_square_sum_loss ?t ?p = Inr loss"
    and sh: "shape loss = [2]"
    and pt: "\<forall>i<2. \<forall>q<prod_list []. elems loss ! (i * prod_list [] + q)
               = (\<Sum>j<2. (axis1_elem 2 (prod_list []) ?p i j q
                            - axis1_elem 2 (prod_list []) ?t i j q)\<^sup>2) / 10"
    by blast
  have two: "{..<2::nat} = {0, 1}" by auto
  have "elems loss ! 0 = 1 / 2" using pt [rule_format, of 0 0]
    by (simp add: axis1_elem_def two)
  moreover have "elems loss ! 1 = 5 / 2" using pt [rule_format, of 1 0]
    by (simp add: axis1_elem_def two)
  ultimately show ?thesis using wt wp run sh by blast
qed

subsection \<open>The metric\<close>


subsection \<open>Build and compile configurations\<close>

lemma build_returns:
  assumes "input_shape \<noteq> []" and "known init"
  shows "build known self input_shape init =
           Inr (self\<lparr>build_input_shape := Some input_shape, built := True,
                     self_w := Some \<lparr>weight_shape = [last input_shape, units self],
                                initializer = init, trainable = True\<rparr>,
                     self_b := Some \<lparr>weight_shape = [units self], initializer = init,
                                trainable = True\<rparr>,
                     layer_init := Some init\<rparr>)"
  using assms by (simp add: build_def Layer_build_def add_weight_def)

lemma build_result:
  assumes "build known self input_shape init = Inr self'"
  shows "layer_init self' = Some init \<and> built self' \<and> build_input_shape self' = Some input_shape"
  using assms
  by (auto simp: build_def Layer_build_def add_weight_def Let_def split: if_splits sum.splits)

lemma get_build_config_built:
  assumes "build_input_shape self = Some s" and "layer_init self = Some init"
  shows "get_build_config self = Inr [''input_shape'' \<mapsto> Shape s, ''layer_init'' \<mapsto> Identifier init]"
  using assms by (simp add: get_build_config_def Layer_get_build_config_def)

text \<open>
  C6: for a layer that was built with input shape \<open>s\<close> and initializer \<open>init\<close>,
  \<^verbatim>\<open>get_build_config\<close> returns the dictionary with exactly the keys
  \<^verbatim>\<open>"input_shape"\<close> and \<^verbatim>\<open>"layer_init"\<close>, holding \<open>s\<close> and \<open>init\<close>. For a
  configuration with these two entries, \<^verbatim>\<open>build_from_config\<close> is the call of
  \<^verbatim>\<open>build\<close> on them; when it returns, \<^verbatim>\<open>layer_init\<close> of the layer is the entry
  and the layer is built; and it returns when the shape is not empty and the initializer is
  known.
\<close>

theorem build_config_round_trip:
  "(build_input_shape self = Some s \<and> layer_init self = Some init \<longrightarrow>
      get_build_config self
        = Inr [''input_shape'' \<mapsto> Shape s, ''layer_init'' \<mapsto> Identifier init]
      \<and> dom [''input_shape'' \<mapsto> Shape s, ''layer_init'' \<mapsto> Identifier init]
        = {''input_shape'', ''layer_init''})
   \<and> (config ''input_shape'' = Some (Shape s') \<and> config ''layer_init'' = Some (Identifier init') \<longrightarrow>
        build_from_config known self' config = build known self' s' init'
        \<and> (\<forall>self''. build_from_config known self' config = Inr self'' \<longrightarrow>
              layer_init self'' = Some init' \<and> built self'')
        \<and> (s' \<noteq> [] \<and> known init' \<longrightarrow>
              (\<exists>self''. build_from_config known self' config = Inr self'')))"
proof (intro conjI impI)
  assume a: "build_input_shape self = Some s \<and> layer_init self = Some init"
  then show "get_build_config self
      = Inr [''input_shape'' \<mapsto> Shape s, ''layer_init'' \<mapsto> Identifier init]"
    by (simp add: get_build_config_built)
  show "dom [''input_shape'' \<mapsto> Shape s, ''layer_init'' \<mapsto> Identifier init]
      = {''input_shape'', ''layer_init''}"
    by auto
next
  assume c: "config ''input_shape'' = Some (Shape s') \<and> config ''layer_init'' = Some (Identifier init')"
  then show e: "build_from_config known self' config = build known self' s' init'"
    by (simp add: build_from_config_def)
  show "\<forall>self''. build_from_config known self' config = Inr self'' \<longrightarrow>
          layer_init self'' = Some init' \<and> built self''"
    using e build_result by metis
  show "\<exists>self''. build_from_config known self' config = Inr self''"
    if "s' \<noteq> [] \<and> known init'"
    using that e by (simp add: build_returns)
qed

theorem build_config_round_trip_witness:
  "get_build_config
      \<lparr>units = 16, built = True, build_input_shape = Some [8],
       self_w = Some \<lparr>weight_shape = [8, 16], initializer = ''random_normal'', trainable = True\<rparr>,
       self_b = Some \<lparr>weight_shape = [16], initializer = ''random_normal'', trainable = True\<rparr>,
       layer_init = Some ''random_normal''\<rparr>
     = Inr [''input_shape'' \<mapsto> Shape [8], ''layer_init'' \<mapsto> Identifier ''random_normal'']
   \<and> (\<exists>restored.
         build_from_config (\<lambda>i. i = ''random_normal'') (LayerWithCustomBuild_init 16)
           [''input_shape'' \<mapsto> Shape [8], ''layer_init'' \<mapsto> Identifier ''random_normal'']
           = Inr restored
         \<and> layer_init restored = Some ''random_normal'' \<and> built restored)"
proof -
  let ?L = "\<lparr>units = 16, built = True, build_input_shape = Some [8],
       self_w = Some \<lparr>weight_shape = [8, 16], initializer = ''random_normal'', trainable = True\<rparr>,
       self_b = Some \<lparr>weight_shape = [16], initializer = ''random_normal'', trainable = True\<rparr>,
       layer_init = Some ''random_normal''\<rparr>"
  let ?cfg = "[''input_shape'' \<mapsto> Shape [8], ''layer_init'' \<mapsto> Identifier ''random_normal'']"
  let ?known = "\<lambda>i. i = ''random_normal''"
  note t = build_config_round_trip [of ?L "[8]" "''random_normal''" ?cfg "[8]" "''random_normal''"
      ?known "LayerWithCustomBuild_init 16"]
  have h1: "build_input_shape ?L = Some [8] \<and> layer_init ?L = Some ''random_normal''" by simp
  have h2: "?cfg ''input_shape'' = Some (Shape [8])
      \<and> ?cfg ''layer_init'' = Some (Identifier ''random_normal'')" by simp
  have h3: "[8::nat] \<noteq> [] \<and> ?known ''random_normal''" by simp
  from t h1 have a: "get_build_config ?L = Inr ?cfg" by blast
  from t h2 h3 obtain restored where
    r: "build_from_config ?known (LayerWithCustomBuild_init 16) ?cfg = Inr restored" by blast
  with t h2 have "layer_init restored = Some ''random_normal'' \<and> built restored" by blast
  with a r show ?thesis by blast
qed

lemma compile_result:
  assumes "compile accepts self optimizer loss metrics = Inr self'"
  shows "model_optimizer self' = Some optimizer \<and> loss_fn self' = Some loss
         \<and> loss_metrics self' = Some metrics \<and> compiled self' = Some (optimizer, loss, metrics)"
  using assms by (auto simp: compile_def Model_compile_def split: if_splits)

lemma compile_returns:
  "accepts optimizer loss metrics \<Longrightarrow> \<exists>self'. compile accepts self optimizer loss metrics = Inr self'"
  by (simp add: compile_def Model_compile_def)

lemma get_compile_config_attrs:
  assumes "model_optimizer self = Some optimizer" and "loss_fn self = Some loss"
    and "loss_metrics self = Some metrics"
  shows "get_compile_config self
           = Inr [''model_optimizer'' \<mapsto> optimizer, ''loss_fn'' \<mapsto> loss, ''metric'' \<mapsto> metrics]"
  using assms by (simp add: get_compile_config_def)

lemma compile_from_config_entries:
  assumes "config ''model_optimizer'' = Some co" and "deserialize co = Inr optimizer"
    and "config ''loss_fn'' = Some cl" and "deserialize cl = Inr loss"
    and "config ''metric'' = Some cm" and "deserialize cm = Inr metrics"
  shows "compile_from_config deserialize accepts self config
           = compile accepts self optimizer loss metrics"
  using assms by (simp add: compile_from_config_def deserialize_entry_def)

text \<open>
  C7: after \<^verbatim>\<open>compile(optimizer, loss_fn, metrics)\<close> has returned, whatever the model
  was compiled with before, \<^verbatim>\<open>get_compile_config\<close> returns the dictionary with exactly
  the keys \<^verbatim>\<open>"model_optimizer"\<close>, \<^verbatim>\<open>"loss_fn"\<close> and \<^verbatim>\<open>"metric"\<close>, holding these
  three values. \<^verbatim>\<open>compile_from_config\<close> on a configuration whose three entries
  deserialize is the call of \<^verbatim>\<open>compile\<close> on the three deserialized values, whatever
  else the configuration holds; it leaves them in the model when it returns, and it returns
  when \<^verbatim>\<open>Model.compile\<close> accepts them.
\<close>

theorem compile_config_round_trip:
  "(compile accepts self optimizer loss metrics = Inr self' \<longrightarrow>
      get_compile_config self'
        = Inr [''model_optimizer'' \<mapsto> optimizer, ''loss_fn'' \<mapsto> loss, ''metric'' \<mapsto> metrics]
      \<and> dom [''model_optimizer'' \<mapsto> optimizer, ''loss_fn'' \<mapsto> loss, ''metric'' \<mapsto> metrics]
        = {''model_optimizer'', ''loss_fn'', ''metric''})
   \<and> (config ''model_optimizer'' = Some co \<and> deserialize co = Inr o'
        \<and> config ''loss_fn'' = Some cl \<and> deserialize cl = Inr l'
        \<and> config ''metric'' = Some cm \<and> deserialize cm = Inr m' \<longrightarrow>
        compile_from_config deserialize accepts model config = compile accepts model o' l' m'
        \<and> (\<forall>model'. compile_from_config deserialize accepts model config = Inr model' \<longrightarrow>
              model_optimizer model' = Some o' \<and> loss_fn model' = Some l'
              \<and> loss_metrics model' = Some m' \<and> compiled model' = Some (o', l', m'))
        \<and> (accepts o' l' m' \<longrightarrow>
              (\<exists>model'. compile_from_config deserialize accepts model config = Inr model')))"
proof (intro conjI impI)
  assume a: "compile accepts self optimizer loss metrics = Inr self'"
  show "get_compile_config self'
      = Inr [''model_optimizer'' \<mapsto> optimizer, ''loss_fn'' \<mapsto> loss, ''metric'' \<mapsto> metrics]"
    using compile_result [OF a] by (simp add: get_compile_config_attrs)
  show "dom [''model_optimizer'' \<mapsto> optimizer, ''loss_fn'' \<mapsto> loss, ''metric'' \<mapsto> metrics]
      = {''model_optimizer'', ''loss_fn'', ''metric''}"
    by auto
next
  assume c: "config ''model_optimizer'' = Some co \<and> deserialize co = Inr o'
        \<and> config ''loss_fn'' = Some cl \<and> deserialize cl = Inr l'
        \<and> config ''metric'' = Some cm \<and> deserialize cm = Inr m'"
  then show e: "compile_from_config deserialize accepts model config = compile accepts model o' l' m'"
    by (simp add: compile_from_config_entries)
  show "\<forall>model'. compile_from_config deserialize accepts model config = Inr model' \<longrightarrow>
          model_optimizer model' = Some o' \<and> loss_fn model' = Some l'
          \<and> loss_metrics model' = Some m' \<and> compiled model' = Some (o', l', m')"
    using e compile_result by metis
  show "\<exists>model'. compile_from_config deserialize accepts model config = Inr model'"
    if "accepts o' l' m'"
    using that e by (simp add: compile_returns)
qed

theorem compile_config_round_trip_witness:
  "compile (\<lambda>o' l m. True) ModelWithCustomCompile_init ''SGD'' ''small_square_sum_loss'' ''mean_pred''
     = Inr \<lparr>compiled = Some (''SGD'', ''small_square_sum_loss'', ''mean_pred''),
            model_optimizer = Some ''SGD'', loss_fn = Some ''small_square_sum_loss'',
            loss_metrics = Some ''mean_pred''\<rparr>
   \<and> get_compile_config
        \<lparr>compiled = Some (''SGD'', ''small_square_sum_loss'', ''mean_pred''),
         model_optimizer = Some ''SGD'', loss_fn = Some ''small_square_sum_loss'',
         loss_metrics = Some ''mean_pred''\<rparr>
     = Inr [''model_optimizer'' \<mapsto> ''SGD'', ''loss_fn'' \<mapsto> ''small_square_sum_loss'',
            ''metric'' \<mapsto> ''mean_pred'']
   \<and> compile_from_config Inr (\<lambda>o' l m. True) ModelWithCustomCompile_init
        [''model_optimizer'' \<mapsto> ''SGD'', ''loss_fn'' \<mapsto> ''small_square_sum_loss'',
         ''metric'' \<mapsto> ''mean_pred'']
     = Inr \<lparr>compiled = Some (''SGD'', ''small_square_sum_loss'', ''mean_pred''),
            model_optimizer = Some ''SGD'', loss_fn = Some ''small_square_sum_loss'',
            loss_metrics = Some ''mean_pred''\<rparr>"
proof -
  let ?acc = "\<lambda>(o'::string) (l::string) (m::string). True"
  let ?M = "\<lparr>compiled = Some (''SGD'', ''small_square_sum_loss'', ''mean_pred''),
            model_optimizer = Some ''SGD'', loss_fn = Some ''small_square_sum_loss'',
            loss_metrics = Some ''mean_pred''\<rparr>"
  let ?cfg = "[''model_optimizer'' \<mapsto> ''SGD'', ''loss_fn'' \<mapsto> ''small_square_sum_loss'',
            ''metric'' \<mapsto> ''mean_pred'']"
  have c: "compile ?acc ModelWithCustomCompile_init ''SGD'' ''small_square_sum_loss'' ''mean_pred''
      = Inr ?M"
    by (simp add: compile_def Model_compile_def ModelWithCustomCompile_init_def)
  have h2: "?cfg ''model_optimizer'' = Some ''SGD'' \<and> Inr ''SGD'' = (Inr ''SGD'' :: error + string)
        \<and> ?cfg ''loss_fn'' = Some ''small_square_sum_loss''
        \<and> Inr ''small_square_sum_loss'' = (Inr ''small_square_sum_loss'' :: error + string)
        \<and> ?cfg ''metric'' = Some ''mean_pred''
        \<and> Inr ''mean_pred'' = (Inr ''mean_pred'' :: error + string)"
    by simp
  note t = compile_config_round_trip [of ?acc ModelWithCustomCompile_init "''SGD''"
      "''small_square_sum_loss''" "''mean_pred''" ?M ?cfg "''SGD''" Inr "''SGD''"
      "''small_square_sum_loss''" "''small_square_sum_loss''" "''mean_pred''" "''mean_pred''"
      ModelWithCustomCompile_init]
  from t c have a: "get_compile_config ?M = Inr ?cfg" by blast
  from t h2 have "compile_from_config Inr ?acc ModelWithCustomCompile_init ?cfg
      = compile ?acc ModelWithCustomCompile_init ''SGD'' ''small_square_sum_loss'' ''mean_pred''"
    by blast
  with c a show ?thesis by simp
qed

subsection \<open>The example scripts\<close>










subsection \<open>Archive files and the asset file\<close>

text \<open>
  C4, as stated: every \<^verbatim>\<open>model.save\<close> would target one and the same archive path. The
  first two calls already target different paths.
\<close>

theorem archive_paths_differ:
  "saved_paths notebook_archive_ops ! 0 = ''custom_vars_model.keras''
   \<and> saved_paths notebook_archive_ops ! 1 = ''custom_assets_model.keras''
   \<and> saved_paths notebook_archive_ops ! 0 \<noteq> saved_paths notebook_archive_ops ! 1"
  by (simp add: notebook_archive_ops_def)

lemma save_assets_frame:
  assumes "save_assets self inner_path fs = Inr fs'"
  shows "dirs fs' = dirs fs"
    and "p \<noteq> os_path_join inner_path ''vocabulary.txt'' \<Longrightarrow> files fs' p = files fs p"
  using assms
  by (auto simp: save_assets_def open_write_def split: if_splits option.splits)

text \<open>
  C4, amended: the scripts save to four archive paths, one for each example and all
  different, and each \<^verbatim>\<open>load_model\<close> reads the path that the \<^verbatim>\<open>model.save\<close> before it
  wrote. Of the hooks, only \<^verbatim>\<open>save_assets\<close> writes to the file system: it creates no
  directory and leaves every file other than \<^verbatim>\<open>vocabulary.txt\<close> in the inner directory
  as it was.
\<close>

theorem archive_paths:
  "saved_paths notebook_archive_ops =
     [''custom_vars_model.keras'', ''custom_assets_model.keras'',
      ''custom_build_model.keras'', ''custom_compile_model.keras'']
   \<and> distinct (saved_paths notebook_archive_ops)
   \<and> loads_follow_saves notebook_archive_ops
   \<and> (save_assets self inner_path fs = Inr fs' \<longrightarrow>
        dirs fs' = dirs fs
        \<and> (\<forall>p. p \<noteq> os_path_join inner_path ''vocabulary.txt'' \<longrightarrow> files fs' p = files fs p))"
  using save_assets_frame [of self inner_path fs fs']
  by (simp add: notebook_archive_ops_def)

theorem archive_paths_witness:
  "save_assets \<lparr>vocab = Some ''abc''\<rparr> ''assets''
       \<lparr>dirs = {''assets''}, files = [''other.txt'' \<mapsto> ''kept'']\<rparr>
     = Inr \<lparr>dirs = {''assets''},
            files = [''other.txt'' \<mapsto> ''kept'', ''assets/vocabulary.txt'' \<mapsto> ''abc'']\<rparr>
   \<and> files \<lparr>dirs = {''assets''},
             files = [''other.txt'' \<mapsto> ''kept'', ''assets/vocabulary.txt'' \<mapsto> ''abc'']\<rparr>
         ''other.txt''
     = files \<lparr>dirs = {''assets''}, files = [''other.txt'' \<mapsto> ''kept'']\<rparr> ''other.txt''
   \<and> length (saved_paths notebook_archive_ops) = 4"
proof -
  let ?fs = "\<lparr>dirs = {''assets''}, files = [''other.txt'' \<mapsto> ''kept'']\<rparr>"
  let ?fs' = "\<lparr>dirs = {''assets''},
            files = [''other.txt'' \<mapsto> ''kept'', ''assets/vocabulary.txt'' \<mapsto> ''abc'']\<rparr>"
  have h: "save_assets \<lparr>vocab = Some ''abc''\<rparr> ''assets'' ?fs = Inr ?fs'"
    by (simp add: save_assets_def open_write_def dir_exists_def join_assets_vocabulary
        dirname_assets_vocabulary write_newlines_id)
  have n: "''other.txt'' \<noteq> os_path_join ''assets'' ''vocabulary.txt''"
    by (simp add: join_assets_vocabulary)
  note t = archive_paths [of "\<lparr>vocab = Some ''abc''\<rparr>" "''assets''" ?fs ?fs']
  from t h n have "files ?fs' ''other.txt'' = files ?fs ''other.txt''" by blast
  moreover from t have "length (saved_paths notebook_archive_ops) = 4" by simp
  ultimately show ?thesis using h by blast
qed

subsection \<open>Classes and hooks\<close>

lemma load_partner_values:
  "load_partner ''save_own_variables'' = Some ''load_own_variables''"
  "load_partner ''save_assets'' = Some ''load_assets''"
  "load_partner ''get_build_config'' = Some ''build_from_config''"
  "load_partner ''get_compile_config'' = Some ''compile_from_config''"
  "load_partner ''get_config'' = Some ''from_config''"
  "load_partner ''__init__'' = None"
  "load_partner ''call'' = None"
  "load_partner ''build'' = None"
  "load_partner ''compile'' = None"
  "load_partner ''load_own_variables'' = None"
  "load_partner ''load_assets'' = None"
  "load_partner ''build_from_config'' = None"
  "load_partner ''compile_from_config'' = None"
  by (simp_all add: load_partner_def startswith_def endswith_def)

lemma is_load_values:
  "is_load ''load_own_variables''" "is_load ''load_assets''"
  "is_load ''build_from_config''" "is_load ''compile_from_config''"
  "\<not> is_load ''__init__''" "\<not> is_load ''call''" "\<not> is_load ''build''"
  "\<not> is_load ''compile''" "\<not> is_load ''get_config''"
  "\<not> is_load ''save_own_variables''" "\<not> is_load ''save_assets''"
  "\<not> is_load ''get_build_config''" "\<not> is_load ''get_compile_config''"
  by (simp_all add: is_load_def startswith_def endswith_def)

text \<open>
  C5: computed from the methods that the classes define, the pairs of a saving method and
  its loading partner in one class are exactly the four pairs of hooks of the guide, each in
  a class of its own. There is no other pair: the only other saving or loading method is
  \<^verbatim>\<open>get_config\<close> of \<^verbatim>\<open>LayerWithCustomBuild\<close>, whose partner \<^verbatim>\<open>from_config\<close> the
  class does not define, no loading method stands without its saving method, and all
  remaining methods are \<^verbatim>\<open>__init__\<close>, \<^verbatim>\<open>call\<close>, \<^verbatim>\<open>build\<close> and \<^verbatim>\<open>compile\<close>.
\<close>

theorem hook_pairs_overridden:
  "overridden_pairs =
     [(''LayerWithCustomVariables'', ''save_own_variables'', ''load_own_variables''),
      (''LayerWithCustomAssets'', ''save_assets'', ''load_assets''),
      (''LayerWithCustomBuild'', ''get_build_config'', ''build_from_config''),
      (''ModelWithCustomCompile'', ''get_compile_config'', ''compile_from_config'')]
   \<and> map snd overridden_pairs = hook_pairs
   \<and> unpaired_saves = [(''LayerWithCustomBuild'', ''get_config'', ''from_config'')]
   \<and> unpaired_loads = []
   \<and> set other_methods = {''__init__'', ''call'', ''build'', ''compile''}"
proof -
  have a: "overridden_pairs =
     [(''LayerWithCustomVariables'', ''save_own_variables'', ''load_own_variables''),
      (''LayerWithCustomAssets'', ''save_assets'', ''load_assets''),
      (''LayerWithCustomBuild'', ''get_build_config'', ''build_from_config''),
      (''ModelWithCustomCompile'', ''get_compile_config'', ''compile_from_config'')]"
    by (simp add: overridden_pairs_def pairs_of_class_def class_methods_def load_partner_values)
  have b: "map snd overridden_pairs = hook_pairs"
    unfolding a by (simp add: hook_pairs_def)
  have c: "unpaired_saves = [(''LayerWithCustomBuild'', ''get_config'', ''from_config'')]"
    by (simp add: unpaired_saves_def class_methods_def load_partner_values)
  have d: "unpaired_loads = []"
    by (simp add: unpaired_loads_def class_methods_def load_partner_values is_load_values)
  have e: "set other_methods = {''__init__'', ''call'', ''build'', ''compile''}"
    by (auto simp: other_methods_def class_methods_def load_partner_values is_load_values)
  show ?thesis using a b c d e by simp
qed

end
